theory Spec2Isabelle
  imports Complex_Main "HOL-Library.Sublist"
begin

section \<open>Strings\<close>

text \<open>
  JavaScript strings are modelled as \<open>string\<close> (a list of 8-bit characters). The
  string methods the services use are written out: \<open>toLowerCase\<close> and
  \<open>toUpperCase\<close> change the ASCII letters and leave every other character as it is
  (the theme table and its keywords are ASCII); then \<open>includes\<close>, \<open>join\<close>,
  \<open>split(' ')\<close> and \<open>charAt(0).toUpperCase() + slice(1)\<close>.
\<close>

definition toLowerCaseChar :: "char \<Rightarrow> char" where
  "toLowerCaseChar c =
     (let n = (of_char c :: nat) in if 65 \<le> n \<and> n \<le> 90 then char_of (n + 32) else c)"

definition toUpperCaseChar :: "char \<Rightarrow> char" where
  "toUpperCaseChar c =
     (let n = (of_char c :: nat) in if 97 \<le> n \<and> n \<le> 122 then char_of (n - 32) else c)"

definition toLowerCase :: "string \<Rightarrow> string" where
  "toLowerCase s = map toLowerCaseChar s"

text \<open>\<open>s.includes(sub)\<close>: \<open>sub\<close> occurs in \<open>s\<close> as a contiguous substring.\<close>

fun str_includes :: "string \<Rightarrow> string \<Rightarrow> bool" where
  "str_includes [] sub = (sub = [])"
| "str_includes (c # cs) sub = (prefix sub (c # cs) \<or> str_includes cs sub)"

text \<open>\<open>xs.join(sep)\<close>.\<close>

fun join :: "string \<Rightarrow> string list \<Rightarrow> string" where
  "join sep [] = []"
| "join sep [x] = x"
| "join sep (x # y # ys) = x @ sep @ join sep (y # ys)"

text \<open>
  \<open>s.split(' ')\<close>: cuts at every single space; the empty string gives one empty
  word, and two spaces in a row give an empty word between them.
\<close>

fun split_space :: "string \<Rightarrow> string list" where
  "split_space [] = [[]]"
| "split_space (c # cs) =
     (if c = CHR '' '' then [] # split_space cs
      else (case split_space cs of w # ws \<Rightarrow> (c # w) # ws | [] \<Rightarrow> [[c]]))"

text \<open>\<open>s.charAt(0).toUpperCase() + s.slice(1)\<close>.\<close>

fun capitalize :: "string \<Rightarrow> string" where
  "capitalize [] = []"
| "capitalize (c # cs) = toUpperCaseChar c # cs"

section \<open>Data model\<close>

text \<open>
  \<open>NewsArticle\<close> (the normalized article), \<open>QuoteResponse\<close> (a record of the quote
  service) and \<open>ThemeImage\<close> (a row of the theme table). Field names follow the
  source; \<open>id\<close>, \<open>keywords\<close> and the fields two records share carry a prime or a
  prefix.
\<close>

record NewsArticle =
  id' :: string
  title :: string
  source :: string
  author :: string
  publishedAt :: string
  summary :: string
  content :: string
  imageUrl' :: string
  url :: string
  categories :: "string list"
  trending :: bool

record QuoteResponse =
  q_id :: string
  q_content :: string
  q_author :: string
  q_tags :: "string list"
  q_dateAdded :: string

record ThemeImage =
  theme :: string
  keywords' :: "string list"
  imageUrl :: string
  description :: string

definition THEMED_JOURNAL_IMAGES :: "ThemeImage list" where
  "THEMED_JOURNAL_IMAGES = [
    \<lparr>theme = ''mindfulness'',
     keywords' = [''mindful'', ''present'', ''awareness'', ''meditation'', ''breath'', ''calm'', ''peace''],
     imageUrl = ''https://images.unsplash.com/photo-1506126613408-eca07ce68773?q=80&w=1000&auto=format&fit=crop'',
     description = ''Person meditating by a peaceful lake at sunrise''\<rparr>,
    \<lparr>theme = ''gratitude'',
     keywords' = [''grateful'', ''thankful'', ''appreciation'', ''blessing'', ''gift'', ''abundance''],
     imageUrl = ''https://images.unsplash.com/photo-1518609878373-06d740f60d8b?q=80&w=1000&auto=format&fit=crop'',
     description = ''Hands holding a small plant growing from soil, symbolizing gratitude and growth''\<rparr>,
    \<lparr>theme = ''nature'',
     keywords' = [''natural'', ''outdoors'', ''environment'', ''earth'', ''forest'', ''mountain'', ''ocean'', ''wilderness''],
     imageUrl = ''https://images.unsplash.com/photo-1441974231531-c6227db76b6e?q=80&w=1000&auto=format&fit=crop'',
     description = ''Sunlight streaming through a lush green forest''\<rparr>,
    \<lparr>theme = ''growth'',
     keywords' = [''develop'', ''improve'', ''progress'', ''evolve'', ''learn'', ''journey'', ''potential''],
     imageUrl = ''https://images.unsplash.com/photo-1549576490-b0b4831ef60a?q=80&w=1000&auto=format&fit=crop'',
     description = ''New plant sprouting from soil, representing personal growth''\<rparr>,
    \<lparr>theme = ''reflection'',
     keywords' = [''reflect'', ''contemplate'', ''introspection'', ''thought'', ''consider'', ''ponder'', ''examine''],
     imageUrl = ''https://images.unsplash.com/photo-1500462918059-b1a0cb512f1d?q=80&w=1000&auto=format&fit=crop'',
     description = ''Person looking at reflection in calm water''\<rparr>,
    \<lparr>theme = ''balance'',
     keywords' = [''equilibrium'', ''harmony'', ''stability'', ''center'', ''peace'', ''moderation''],
     imageUrl = ''https://images.unsplash.com/photo-1519834089823-af2d966a42c4?q=80&w=1000&auto=format&fit=crop'',
     description = ''Balanced stones stacked on a beach at sunset''\<rparr>,
    \<lparr>theme = ''wisdom'',
     keywords' = [''knowledge'', ''insight'', ''understanding'', ''sage'', ''philosophy'', ''enlightenment'', ''truth''],
     imageUrl = ''https://images.unsplash.com/photo-1532012197267-da84d127e765?q=80&w=1000&auto=format&fit=crop'',
     description = ''Open book with light illuminating the pages''\<rparr>,
    \<lparr>theme = ''creativity'',
     keywords' = [''create'', ''imagine'', ''inspire'', ''art'', ''innovation'', ''expression'', ''original''],
     imageUrl = ''https://images.unsplash.com/photo-1513364776144-60967b0f800f?q=80&w=1000&auto=format&fit=crop'',
     description = ''Colorful art supplies and creative workspace''\<rparr>,
    \<lparr>theme = ''courage'',
     keywords' = [''brave'', ''strength'', ''fearless'', ''confidence'', ''bold'', ''daring'', ''overcome''],
     imageUrl = ''https://images.unsplash.com/photo-1520116468816-95b69f847357?q=80&w=1000&auto=format&fit=crop'',
     description = ''Person standing on mountain peak overlooking vast landscape''\<rparr>,
    \<lparr>theme = ''connection'',
     keywords' = [''relationship'', ''community'', ''bond'', ''together'', ''unity'', ''friendship'', ''love''],
     imageUrl = ''https://images.unsplash.com/photo-1511632765486-a01980e01a18?q=80&w=1000&auto=format&fit=crop'',
     description = ''People holding hands in unity and support''\<rparr>,
    \<lparr>theme = ''simplicity'',
     keywords' = [''minimal'', ''essential'', ''clarity'', ''focus'', ''uncomplicated'', ''basic''],
     imageUrl = ''https://images.unsplash.com/photo-1473186505569-9c61870c11f9?q=80&w=1000&auto=format&fit=crop'',
     description = ''Minimalist scene with simple objects and clean lines''\<rparr>,
    \<lparr>theme = ''resilience'',
     keywords' = [''endure'', ''overcome'', ''persevere'', ''adapt'', ''recover'', ''strength'', ''determination''],
     imageUrl = ''https://images.unsplash.com/photo-1485236715568-ddc5ee6ca227?q=80&w=1000&auto=format&fit=crop'',
     description = ''Plant growing through crack in concrete, symbolizing resilience''\<rparr>
  ]"

section \<open>Theme matcher: \<open>findRelevantImage\<close>\<close>

text \<open>
  The text analysed: \<open>`${quoteContent} ${tags.join(' ')}`.toLowerCase()\<close>.
\<close>

definition combinedText :: "string \<Rightarrow> string list \<Rightarrow> string" where
  "combinedText quoteContent tags = toLowerCase (quoteContent @ '' '' @ join '' '' tags)"

text \<open>
  \<open>matchCount\<close>: how many keywords of the theme occur in the combined text.
  \<open>score = matchCount / theme.keywords.length\<close>. The source divides two doubles; the
  operands are integers of at most 8, whose quotients are ordered and equal as doubles
  exactly as they are as fractions, so the score is a rational here.
\<close>

definition matchCount :: "string \<Rightarrow> ThemeImage \<Rightarrow> nat" where
  "matchCount text th =
     length (filter (\<lambda>keyword. str_includes text (toLowerCase keyword)) (keywords' th))"

definition score :: "string \<Rightarrow> ThemeImage \<Rightarrow> rat" where
  "score text th = of_nat (matchCount text th) / of_nat (length (keywords' th))"

definition themeScores :: "string \<Rightarrow> (ThemeImage \<times> rat) list" where
  "themeScores text = map (\<lambda>th. (th, score text th)) THEMED_JOURNAL_IMAGES"

text \<open>
  \<open>themeScores.sort((a, b) => b.score - a.score)\<close>: \<open>Array.prototype.sort\<close> is a
  stable sort, here by descending score; \<open>sort_key\<close> is the stable insertion sort,
  by ascending key, so the key is the negated score. \<open>themeScores[0]\<close> is the head of
  the sorted list (the table is a non-empty constant).

  The three branches follow the source: the best theme when its score is positive;
  otherwise the first theme whose name or one of whose keywords equals the first tag;
  otherwise the theme at a random index, \<open>Math.floor(Math.random() * length)\<close>, which the
  model takes as the argument \<open>rnd\<close> reduced modulo the length of the table. The result
  \<open>{url, description}\<close> is the pair \<open>(url, description)\<close>.
\<close>

definition findRelevantImage :: "nat \<Rightarrow> string \<Rightarrow> string list \<Rightarrow> string \<times> string" where
  "findRelevantImage rnd quoteContent tags =
     (let text = combinedText quoteContent tags;
          sorted = sort_key (\<lambda>ts. - snd ts) (themeScores text);
          best = hd sorted
      in if snd best > 0 then (imageUrl (fst best), description (fst best))
         else
           (case (if tags \<noteq> []
                  then (let tagToMatch = toLowerCase (hd tags)
                        in find (\<lambda>th. toLowerCase (theme th) = tagToMatch \<or>
                                       list_ex (\<lambda>k. toLowerCase k = tagToMatch) (keywords' th))
                                THEMED_JOURNAL_IMAGES)
                  else None) of
              Some tagMatch \<Rightarrow> (imageUrl tagMatch, description tagMatch)
            | None \<Rightarrow>
                (let randomTheme =
                       THEMED_JOURNAL_IMAGES ! (rnd mod length THEMED_JOURNAL_IMAGES)
                 in (imageUrl randomTheme, description randomTheme))))"

section \<open>Content synthesizer\<close>

text \<open>
  \<open>generateExpandedContent\<close>: the first theme of the table one of whose keywords
  occurs in the lower-cased quote names the main theme (the \<open>for\<close> loop with
  \<open>break\<close>); the default is \<open>reflection\<close>. The body is the source's template, line by
  line.
\<close>

definition nl :: string where
  "nl = [CHR 0x0A]"

definition apostrophe :: string where
  "apostrophe = [CHR 0x27]"

definition dquote :: string where
  "dquote = [CHR 0x22]"

definition generateExpandedContent :: "string \<Rightarrow> string \<Rightarrow> string" where
  "generateExpandedContent quoteContent author' =
     (let lowerQuote = toLowerCase quoteContent;
          (mainTheme, themeDescription) =
            (case find (\<lambda>th. length (filter (\<lambda>keyword. str_includes lowerQuote (toLowerCase keyword))
                                            (keywords' th)) > 0)
                       THEMED_JOURNAL_IMAGES of
               Some th \<Rightarrow> (theme th, description th)
             | None \<Rightarrow> (''reflection'', ''reflecting on our thoughts and experiences''))
      in concat [
        nl,
        ''Today'', apostrophe, ''s journal entry focuses on '', mainTheme,
        '' through a profound thought by '', author', '': '', dquote, quoteContent, dquote, nl,
        nl,
        ''This quote speaks to the essence of '', mainTheme,
        '' and invites us to consider how '', themeDescription,
        '' relates to our daily experiences. When we embrace '', mainTheme,
        '', we open ourselves to new perspectives and deeper understanding.'', nl,
        nl,
        ''When I first encountered this idea from '', author',
        '', it resonated with me because it highlights how '', mainTheme,
        '' can transform our approach to life'', apostrophe,
        ''s challenges and opportunities. The wisdom here isn'', apostrophe,
        ''t just about intellectual understanding, but about practical application in our everyday choices.'', nl,
        nl,
        ''How we might apply this insight:'', nl,
        nl,
        ''1. Consider how '', mainTheme, '' appears in your current circumstances'', nl,
        ''2. Reflect on a time when you experienced the truth of this quote firsthand'', nl,
        ''3. Identify one small action you can take today that aligns with this wisdom'', nl,
        ''4. Share this perspective with someone who might benefit from it'', nl,
        nl,
        ''The journey of personal growth often involves these moments of clarity where timeless wisdom meets our present reality. As we continue to explore ideas like this one from '',
        author',
        '', we develop a richer understanding of ourselves and our place in the world.'', nl,
        ''  ''])"

text \<open>
  What \<open>transformQuoteToJournalEntry\<close> draws from outside the program, per quote:
  the fresh \<open>uuidv4()\<close>, the ISO string of the date back-dated by
  \<open>Math.floor(Math.random() * 7)\<close> days, the outcome of \<open>Math.random() > 0.7\<close> and the
  random index \<open>findRelevantImage\<close> may use.
\<close>

record draws =
  d_uuid :: string
  d_publishedAt :: string
  d_trending :: bool
  d_theme :: nat

definition transformQuoteToJournalEntry :: "draws \<Rightarrow> QuoteResponse \<Rightarrow> nat \<Rightarrow> NewsArticle" where
  "transformQuoteToJournalEntry d quote index =
     (let expandedContent = generateExpandedContent (q_content quote) (q_author quote);
          (imgUrl, imageDescription) = findRelevantImage (d_theme d) (q_content quote) (q_tags quote);
          titleWords = split_space (q_content quote);
          shortTitle = (if length titleWords > 8
                        then join '' '' (take 8 titleWords) @ ''...''
                        else q_content quote);
          theme' = (if length (q_tags quote) > 0 then hd (q_tags quote) else ''reflection'')
      in \<lparr>id' = d_uuid d,
          title = ''Daily '' @ capitalize theme' @ '': '' @ shortTitle,
          source = ''Daily Journal'',
          author = q_author quote,
          publishedAt = d_publishedAt d,
          summary = q_content quote,
          content = expandedContent,
          imageUrl' = imgUrl,
          url = ''https://example.com/journal/'' @ q_id quote,
          categories = [''journal''],
          trending = d_trending d\<rparr>)"

text \<open>
  \<open>quotes.map((quote, index) => transformQuoteToJournalEntry(quote, index))\<close>; the
  draws of the quote at position \<open>index\<close> are \<open>rand index\<close>.
\<close>

definition transformQuotes :: "(nat \<Rightarrow> draws) \<Rightarrow> QuoteResponse list \<Rightarrow> NewsArticle list" where
  "transformQuotes rand quotes =
     map (\<lambda>(index, quote). transformQuoteToJournalEntry (rand index) quote index)
         (enumerate 0 quotes)"

section \<open>Cache and change detector (journal API)\<close>

text \<open>
  An asynchronous function's promise either rejects (\<open>Inl\<close> the error) or resolves
  (\<open>Inr\<close> the value). The errors the module can raise: \<open>fetch\<close> rejecting, the
  \<open>throw new Error(`API request failed with status ...`)\<close> of a response that is not
  ok, \<open>response.json()\<close> rejecting, \<open>JSON.parse\<close> of the stored text (or the
  destructuring of what it parsed to) raising, and a listener raising while it is
  notified.
\<close>

datatype error =
    FetchRejected
  | ApiRequestFailed nat
  | ResponseJsonRejected
  | CacheParseError
  | ListenerError

text \<open>
  The persisted cache record \<open>{date, entries}\<close>. \<open>entries\<close> is optional because
  the source guards every use (\<open>entries && entries.length > 0\<close>, \<open>entries || []\<close>).
  The item stored under the key \<open>journalSphere_dailyEntries\<close> is \<open>None\<close> when
  \<open>getItem\<close> gives \<open>null\<close> (or the empty string, equally falsy), \<open>Some Corrupt\<close>
  when the text makes \<open>JSON.parse\<close> or the destructuring raise, and \<open>Some (Parsed r)\<close>
  otherwise; serialisation by \<open>JSON.stringify\<close> and back is the identity on records.
\<close>

record cache_record =
  date :: string
  entries :: "NewsArticle list option"

datatype stored = Corrupt | Parsed cache_record

text \<open>
  The response of \<open>fetch(QUOTES_API_URL)\<close>: the request fails, or a response arrives
  with a status (\<open>response.ok\<close> is a status from 200 to 299) and a body that
  \<open>response.json()\<close> turns into a list of quotes or rejects.
\<close>

datatype body = BadJson | Json "QuoteResponse list"

datatype response = NetworkFailure | Response nat body

definition ok :: "nat \<Rightarrow> bool" where
  "ok status = (200 \<le> status \<and> status \<le> 299)"

text \<open>
  A listener is a callback, named by a handle. What a callback does when it is called
  is not the modules' code, so it is a parameter, its \<open>behaviour\<close>: given how long
  the module's log is at the moment of the call, the listener and the argument it is
  called with, the listener's reaction. A reaction is what a callback can do to the
  module that notifies it: change the registry it is in, through \<open>subscribe\<close>
  (\<open>push\<close>) and through the unsubscribe functions (\<open>indexOf\<close> and \<open>splice\<close>, which
  remove the first occurrence), and return or throw.
\<close>

type_synonym listener = nat

datatype registry_op = Push listener | Remove listener

record reaction =
  r_ops :: "registry_op list"
  r_throws :: bool

type_synonym 'a behaviour = "nat \<Rightarrow> listener \<Rightarrow> 'a \<Rightarrow> reaction"

fun apply_op :: "listener list \<Rightarrow> registry_op \<Rightarrow> listener list" where
  "apply_op reg (Push l) = reg @ [l]"
| "apply_op reg (Remove l) = remove1 l reg"

text \<open>
  \<open>registry.forEach(listener => listener(argument))\<close>. \<open>forEach\<close> reads the length
  of the array once, then visits the indices \<open>0, 1, ...\<close> below that length and calls
  the element it finds at each index of the array as it is at that moment; an index
  the array no longer has is passed over. So a listener pushed during the iteration is
  not called, and after a listener at or before the current index is removed the
  element that follows is never visited. A listener that throws ends the iteration, and
  the exception leaves \<open>forEach\<close>.

  \<open>forEach react k n reg called\<close> has \<open>n\<close> indices left to visit from \<open>k\<close> on;
  \<open>react i l\<close> is the reaction of the listener \<open>l\<close> when \<open>i\<close> calls have been made
  before. The result is the exception thrown, if any, the registry at the end and the
  listeners called, in order.
\<close>

fun forEach ::
  "(nat \<Rightarrow> listener \<Rightarrow> reaction) \<Rightarrow> nat \<Rightarrow> nat \<Rightarrow> listener list \<Rightarrow> listener list
     \<Rightarrow> error option \<times> listener list \<times> listener list" where
  "forEach react k 0 reg called = (None, reg, called)"
| "forEach react k (Suc n) reg called =
     (if k < length reg
      then (let l = reg ! k;
                r = react (length called) l;
                reg' = foldl apply_op reg (r_ops r);
                called' = called @ [l]
            in if r_throws r then (Some ListenerError, reg', called')
               else forEach react (Suc k) n reg' called')
      else forEach react (Suc k) n reg called)"

text \<open>
  The journal module's log records every \<open>fetch\<close> it issues, every call of the
  notification fan-out and every call of a listener. The log is what the properties
  about network calls and notifications are stated on.
\<close>

datatype journal_event =
    Fetch
  | Publish "NewsArticle list"
  | Deliver listener "NewsArticle list"

record journal_state =
  lastFetchTimestamp :: int
  localStorage :: "stored option"
  articleUpdateListeners :: "listener list"
  journal_log :: "journal_event list"

text \<open>
  \<open>fetch(QUOTES_API_URL)\<close>, the \<open>response.ok\<close> check and \<open>response.json()\<close>: the
  quotes, or the error raised.
\<close>

definition fetchQuotes :: "response \<Rightarrow> journal_state \<Rightarrow> (error + QuoteResponse list) \<times> journal_state" where
  "fetchQuotes resp s =
     (let s' = s\<lparr>journal_log := journal_log s @ [Fetch]\<rparr>
      in case resp of
           NetworkFailure \<Rightarrow> (Inl FetchRejected, s')
         | Response status b \<Rightarrow>
             if \<not> ok status then (Inl (ApiRequestFailed status), s')
             else (case b of
                     BadJson \<Rightarrow> (Inl ResponseJsonRejected, s')
                   | Json quotes \<Rightarrow> (Inr quotes, s')))"

text \<open>
  \<open>localStorage.setItem('journalSphere_dailyEntries', JSON.stringify({date, entries}))\<close>.
\<close>

definition setItem :: "string \<Rightarrow> NewsArticle list \<Rightarrow> journal_state \<Rightarrow> journal_state" where
  "setItem currentDate es s =
     s\<lparr>localStorage := Some (Parsed \<lparr>date = currentDate, entries = Some es\<rparr>)\<rparr>"

text \<open>
  \<open>fetchDailyJournalEntries\<close>, the body of the \<open>try\<close> and the body of the \<open>catch\<close>.
  \<open>currentDate\<close> is \<open>new Date().toISOString().split('T')[0]\<close>, read from the clock.
\<close>

definition fetchDailyJournalEntries_try ::
  "string \<Rightarrow> response \<Rightarrow> (nat \<Rightarrow> draws) \<Rightarrow> journal_state \<Rightarrow> (error + NewsArticle list) \<times> journal_state" where
  "fetchDailyJournalEntries_try currentDate resp rand s =
     (case localStorage s of
        Some Corrupt \<Rightarrow> (Inl CacheParseError, s)
      | cachedData \<Rightarrow>
          (case (case cachedData of
                   Some (Parsed r) \<Rightarrow>
                     (case entries r of
                        Some es \<Rightarrow> if date r = currentDate \<and> length es > 0 then Some es else None
                      | None \<Rightarrow> None)
                 | _ \<Rightarrow> None) of
             Some es \<Rightarrow> (Inr es, s)
           | None \<Rightarrow>
               (case fetchQuotes resp s of
                  (Inl e, s') \<Rightarrow> (Inl e, s')
                | (Inr quotes, s') \<Rightarrow>
                    (let journalEntries = transformQuotes rand quotes
                     in (Inr journalEntries, setItem currentDate journalEntries s')))))"

definition fetchDailyJournalEntries_catch ::
  "journal_state \<Rightarrow> (error + NewsArticle list) \<times> journal_state" where
  "fetchDailyJournalEntries_catch s =
     (case localStorage s of
        Some Corrupt \<Rightarrow> (Inl CacheParseError, s)
      | Some (Parsed r) \<Rightarrow>
          (case entries r of
             Some es \<Rightarrow> if length es > 0 then (Inr es, s) else (Inr [], s)
           | None \<Rightarrow> (Inr [], s))
      | None \<Rightarrow> (Inr [], s))"

definition fetchDailyJournalEntries ::
  "string \<Rightarrow> response \<Rightarrow> (nat \<Rightarrow> draws) \<Rightarrow> journal_state \<Rightarrow> (error + NewsArticle list) \<times> journal_state" where
  "fetchDailyJournalEntries currentDate resp rand s =
     (case fetchDailyJournalEntries_try currentDate resp rand s of
        (Inr es, s') \<Rightarrow> (Inr es, s')
      | (Inl e, s') \<Rightarrow> fetchDailyJournalEntries_catch s')"

text \<open>
  \<open>fetchJournalEntryById\<close>: the cache first, then \<open>fetchDailyJournalEntries\<close>; the
  outer \<open>catch\<close> turns every error into \<open>null\<close>. \<open>entries.find(...)\<close> is \<open>find\<close>.
\<close>

definition fetchJournalEntryById_try ::
  "string \<Rightarrow> string \<Rightarrow> response \<Rightarrow> (nat \<Rightarrow> draws) \<Rightarrow> journal_state
     \<Rightarrow> (error + NewsArticle option) \<times> journal_state" where
  "fetchJournalEntryById_try ident currentDate resp rand s =
     (case localStorage s of
        Some Corrupt \<Rightarrow> (Inl CacheParseError, s)
      | cachedData \<Rightarrow>
          (case (case cachedData of
                   Some (Parsed r) \<Rightarrow>
                     (case entries r of
                        Some es \<Rightarrow> if length es > 0 then find (\<lambda>entry. id' entry = ident) es else None
                      | None \<Rightarrow> None)
                 | _ \<Rightarrow> None) of
             Some cachedEntry \<Rightarrow> (Inr (Some cachedEntry), s)
           | None \<Rightarrow>
               (case fetchDailyJournalEntries currentDate resp rand s of
                  (Inl e, s') \<Rightarrow> (Inl e, s')
                | (Inr allEntries, s') \<Rightarrow>
                    (Inr (find (\<lambda>entry. id' entry = ident) allEntries), s'))))"

definition fetchJournalEntryById ::
  "string \<Rightarrow> string \<Rightarrow> response \<Rightarrow> (nat \<Rightarrow> draws) \<Rightarrow> journal_state
     \<Rightarrow> (error + NewsArticle option) \<times> journal_state" where
  "fetchJournalEntryById ident currentDate resp rand s =
     (case fetchJournalEntryById_try ident currentDate resp rand s of
        (Inr r, s') \<Rightarrow> (Inr r, s')
      | (Inl e, s') \<Rightarrow> (Inr None, s'))"

text \<open>
  The article-update registry: \<open>push\<close>, and the unsubscribe function's
  \<open>indexOf\<close>/\<open>splice\<close>, which removes the first occurrence.
\<close>

definition subscribeToArticleUpdates :: "listener \<Rightarrow> journal_state \<Rightarrow> journal_state" where
  "subscribeToArticleUpdates l s = s\<lparr>articleUpdateListeners := articleUpdateListeners s @ [l]\<rparr>"

definition unsubscribeFromArticleUpdates :: "listener \<Rightarrow> journal_state \<Rightarrow> journal_state" where
  "unsubscribeFromArticleUpdates l s =
     s\<lparr>articleUpdateListeners := remove1 l (articleUpdateListeners s)\<rparr>"

text \<open>
  \<open>notifyArticleUpdateListeners\<close>: the \<open>forEach\<close> over the registry. It returns
  normally or passes on the exception of a listener.
\<close>

definition notifyArticleUpdateListeners ::
  "NewsArticle list behaviour \<Rightarrow> NewsArticle list \<Rightarrow> journal_state
     \<Rightarrow> (error + unit) \<times> journal_state" where
  "notifyArticleUpdateListeners ab articles s =
     (let s1 = s\<lparr>journal_log := journal_log s @ [Publish articles]\<rparr>;
          reg = articleUpdateListeners s1;
          (thrown, reg', called) =
             forEach (\<lambda>i l. ab (length (journal_log s1) + i) l articles) 0 (length reg) reg [];
          s2 = s1\<lparr>articleUpdateListeners := reg',
                  journal_log := journal_log s1 @ map (\<lambda>l. Deliver l articles) called\<rparr>
      in (case thrown of Some e \<Rightarrow> (Inl e, s2) | None \<Rightarrow> (Inr (), s2)))"

text \<open>
  \<open>checkForNewArticles\<close>. \<open>currentTimestamp\<close> is \<open>Date.now()\<close>; \<open>currentDate\<close> is
  read from the clock after the fetch. \<open>hasNewContent\<close> is the source's expression,
  with \<open>some\<close> as \<open>list_ex\<close>. The fan-out runs inside the \<open>try\<close>: an exception of a
  listener reaches the \<open>catch\<close>, after the cache has been written.
\<close>

definition hasNewContent :: "NewsArticle list \<Rightarrow> NewsArticle list \<Rightarrow> bool" where
  "hasNewContent cachedEntries latestEntries =
     (length cachedEntries = 0 \<or>
      \<not> list_ex (\<lambda>cached.
           list_ex (\<lambda>latest. summary latest = summary cached \<and> author latest = author cached)
                   latestEntries)
         cachedEntries)"

definition checkForNewArticles_try ::
  "NewsArticle list behaviour \<Rightarrow> int \<Rightarrow> string \<Rightarrow> response \<Rightarrow> (nat \<Rightarrow> draws) \<Rightarrow> journal_state
     \<Rightarrow> (error + bool) \<times> journal_state" where
  "checkForNewArticles_try ab currentTimestamp currentDate resp rand s =
     (if currentTimestamp - lastFetchTimestamp s < 30000 then (Inr False, s)
      else
        (let s1 = s\<lparr>lastFetchTimestamp := currentTimestamp\<rparr>
         in case localStorage s1 of
              Some Corrupt \<Rightarrow> (Inl CacheParseError, s1)
            | cachedData \<Rightarrow>
                (let cachedEntries =
                       (case cachedData of
                          Some (Parsed r) \<Rightarrow> (case entries r of Some es \<Rightarrow> es | None \<Rightarrow> [])
                        | _ \<Rightarrow> [])
                 in case fetchQuotes resp s1 of
                      (Inl e, s2) \<Rightarrow> (Inl e, s2)
                    | (Inr quotes, s2) \<Rightarrow>
                        (let latestEntries = transformQuotes rand quotes
                         in if hasNewContent cachedEntries latestEntries
                            then (case notifyArticleUpdateListeners ab latestEntries
                                         (setItem currentDate latestEntries s2) of
                                    (Inl e, s3) \<Rightarrow> (Inl e, s3)
                                  | (Inr u, s3) \<Rightarrow> (Inr True, s3))
                            else (Inr False, s2)))))"

definition checkForNewArticles ::
  "NewsArticle list behaviour \<Rightarrow> int \<Rightarrow> string \<Rightarrow> response \<Rightarrow> (nat \<Rightarrow> draws) \<Rightarrow> journal_state
     \<Rightarrow> (error + bool) \<times> journal_state" where
  "checkForNewArticles ab currentTimestamp currentDate resp rand s =
     (case checkForNewArticles_try ab currentTimestamp currentDate resp rand s of
        (Inr b, s') \<Rightarrow> (Inr b, s')
      | (Inl e, s') \<Rightarrow> (Inr False, s'))"

text \<open>
  For the statements below: the entries of the persisted record, none when there is no
  readable record or the record has no entries; and the claim that every cached entry
  has a fresh entry with the same summary and author, in the words of the
  specification.
\<close>

definition persistedEntries :: "journal_state \<Rightarrow> NewsArticle list" where
  "persistedEntries s =
     (case localStorage s of
        Some (Parsed r) \<Rightarrow> (case entries r of Some es \<Rightarrow> es | None \<Rightarrow> [])
      | _ \<Rightarrow> [])"


section \<open>Fallback aggregator\<close>

datatype NewsApiSource = MEDIASTACK | NEWSAPI | GUARDIAN

definition API_PRIORITY :: "NewsApiSource list" where
  "API_PRIORITY = [MEDIASTACK, NEWSAPI, GUARDIAN]"

text \<open>
  The three provider clients are imported from modules that are not among the sources
  at hand, so they are parameters. A client is asynchronous: it rejects or resolves to a
  list of articles. Its first argument is the number of provider calls issued before
  this one, so that a provider called again may answer differently; the others are the
  optional category and the limit.
\<close>

type_synonym provider_client = "nat \<Rightarrow> string option \<Rightarrow> nat \<Rightarrow> error + NewsArticle list"

record provider_clients =
  fetchMediaStackArticles :: provider_client
  fetchNewsApiArticles :: provider_client
  fetchGuardianArticles :: provider_client

text \<open>
  The module's state: \<open>latestArticles\<close>, the last successful result per provider, and
  the log of the providers invoked, in order.
\<close>

record aggregator_state =
  latestArticlesBySource :: "NewsApiSource \<Rightarrow> NewsArticle list"
  invoked :: "NewsApiSource list"

text \<open>The \<open>switch (apiSource)\<close> of the loop body.\<close>

definition callProvider ::
  "provider_clients \<Rightarrow> nat \<Rightarrow> NewsApiSource \<Rightarrow> string option \<Rightarrow> nat \<Rightarrow> error + NewsArticle list" where
  "callProvider clients n apiSource category limit =
     (case apiSource of
        MEDIASTACK \<Rightarrow> fetchMediaStackArticles clients n category limit
      | NEWSAPI \<Rightarrow> fetchNewsApiArticles clients n category limit
      | GUARDIAN \<Rightarrow> fetchGuardianArticles clients n category limit)"

text \<open>
  \<open>fetchArticlesFromAllSources\<close>: the \<open>for\<close> loop over \<open>apiPriority\<close> is the
  recursion over the list; the \<open>catch\<close> inside the loop continues with the next
  provider, and so does an empty result.
\<close>

fun fetchArticlesFromAllSources ::
  "provider_clients \<Rightarrow> string option \<Rightarrow> nat \<Rightarrow> NewsApiSource list \<Rightarrow> aggregator_state
     \<Rightarrow> (error + NewsArticle list) \<times> aggregator_state" where
  "fetchArticlesFromAllSources clients category limit [] st = (Inr [], st)"
| "fetchArticlesFromAllSources clients category limit (apiSource # rest) st =
     (let st1 = st\<lparr>invoked := invoked st @ [apiSource]\<rparr>
      in case callProvider clients (length (invoked st)) apiSource category limit of
           Inl e \<Rightarrow> fetchArticlesFromAllSources clients category limit rest st1
         | Inr articles \<Rightarrow>
             if length articles > 0
             then (Inr articles,
                   st1\<lparr>latestArticlesBySource := (latestArticlesBySource st1)(apiSource := articles)\<rparr>)
             else fetchArticlesFromAllSources clients category limit rest st1)"

text \<open>A provider call that makes the loop go on: it raised, or it gave no article.\<close>

definition yields_nothing :: "error + NewsArticle list \<Rightarrow> bool" where
  "yields_nothing r = (case r of Inl e \<Rightarrow> True | Inr articles \<Rightarrow> articles = [])"

section \<open>Unified article service\<close>

text \<open>
  The local static dataset (\<open>mockNewsData\<close>) is not among the sources at hand; its
  six functions are parameters. They are synchronous and total.
\<close>

record mockNewsData =
  getAllArticles :: "NewsArticle list"
  getArticlesByCategory :: "string \<Rightarrow> NewsArticle list"
  getTrendingArticles :: "NewsArticle list"
  searchArticles :: "string \<Rightarrow> NewsArticle list"
  getArticleById :: "string \<Rightarrow> NewsArticle option"
  getRelatedArticles :: "string \<Rightarrow> string \<Rightarrow> nat \<Rightarrow> NewsArticle list"

text \<open>
  The module-level variables of the service (\<open>latestArticles\<close>, its own
  \<open>articleUpdateListeners\<close>, \<open>pollingInterval\<close>, \<open>isCurrentlyChecking\<close>,
  \<open>checkingStatusListeners\<close>), the state of the journal module it imports, and the
  window's timers: the active \<open>setInterval\<close> timers as pairs of handle and interval,
  and the next handle to hand out (handles are positive integers). The rest is a log:
  the calls of the listeners of both registries, and how many calls of
  \<open>checkForNewArticles\<close> have been started and have not settled yet.
\<close>

record service_state =
  journal :: journal_state
  latestArticles :: "NewsArticle list"
  newsUpdateListeners :: "listener list"
  pollingInterval :: "nat option"
  isCurrentlyChecking :: bool
  checkingStatusListeners :: "listener list"
  timers :: "(nat \<times> nat) list"
  next_handle :: nat
  news_log :: "(listener \<times> NewsArticle list) list"
  status_log :: "(listener \<times> bool) list"
  in_flight :: nat

subsection \<open>Registries\<close>

text \<open>
  Both fan-outs of the service are a \<open>forEach\<close> over the registry, as in the journal
  module; each call of a listener is logged with its argument.
\<close>

definition notifyNewsUpdateListeners ::
  "NewsArticle list behaviour \<Rightarrow> NewsArticle list \<Rightarrow> service_state
     \<Rightarrow> (error + unit) \<times> service_state" where
  "notifyNewsUpdateListeners nb articles st =
     (let reg = newsUpdateListeners st;
          (thrown, reg', called) =
             forEach (\<lambda>i l. nb (length (news_log st) + i) l articles) 0 (length reg) reg [];
          st' = st\<lparr>newsUpdateListeners := reg',
                  news_log := news_log st @ map (\<lambda>l. (l, articles)) called\<rparr>
      in (case thrown of Some e \<Rightarrow> (Inl e, st') | None \<Rightarrow> (Inr (), st')))"

text \<open>The callback the service registers with the journal module when it is loaded.\<close>

definition onJournalUpdate ::
  "mockNewsData \<Rightarrow> NewsArticle list behaviour \<Rightarrow> NewsArticle list \<Rightarrow> service_state
     \<Rightarrow> (error + unit) \<times> service_state" where
  "onJournalUpdate m nb newJournalArticles st =
     (let st' = st\<lparr>latestArticles := getAllArticles m @ newJournalArticles\<rparr>
      in notifyNewsUpdateListeners nb (latestArticles st') st')"

definition subscribeToNewsUpdates :: "listener \<Rightarrow> service_state \<Rightarrow> service_state" where
  "subscribeToNewsUpdates l st = st\<lparr>newsUpdateListeners := newsUpdateListeners st @ [l]\<rparr>"

definition subscribeToCheckingStatus :: "listener \<Rightarrow> service_state \<Rightarrow> service_state" where
  "subscribeToCheckingStatus l st =
     st\<lparr>checkingStatusListeners := checkingStatusListeners st @ [l]\<rparr>"

definition unsubscribeFromCheckingStatus :: "listener \<Rightarrow> service_state \<Rightarrow> service_state" where
  "unsubscribeFromCheckingStatus l st =
     st\<lparr>checkingStatusListeners := remove1 l (checkingStatusListeners st)\<rparr>"

definition notifyCheckingStatusListeners ::
  "bool behaviour \<Rightarrow> bool \<Rightarrow> service_state \<Rightarrow> (error + unit) \<times> service_state" where
  "notifyCheckingStatusListeners sb isChecking st =
     (let reg = checkingStatusListeners st;
          (thrown, reg', called) =
             forEach (\<lambda>i l. sb (length (status_log st) + i) l isChecking) 0 (length reg) reg [];
          st' = st\<lparr>checkingStatusListeners := reg',
                  status_log := status_log st @ map (\<lambda>l. (l, isChecking)) called\<rparr>
      in (case thrown of Some e \<Rightarrow> (Inl e, st') | None \<Rightarrow> (Inr (), st')))"

subsection \<open>Polling\<close>

text \<open>
  \<open>window.setInterval\<close> installs a timer under a fresh handle; \<open>clearInterval\<close>
  removes the timer with the given handle. \<open>if (pollingInterval)\<close> is the truthiness
  of \<open>number | null\<close>: neither \<open>null\<close> nor \<open>0\<close>; it is written out in
  \<open>startArticlePolling\<close> and \<open>stopArticlePolling\<close>.
\<close>

definition setInterval :: "nat \<Rightarrow> service_state \<Rightarrow> nat \<times> service_state" where
  "setInterval intervalMs st =
     (next_handle st,
      st\<lparr>timers := timers st @ [(next_handle st, intervalMs)],
         next_handle := next_handle st + 1\<rparr>)"

definition clearInterval :: "nat \<Rightarrow> service_state \<Rightarrow> service_state" where
  "clearInterval h st = st\<lparr>timers := filter (\<lambda>t. fst t \<noteq> h) (timers st)\<rparr>"

text \<open>
  \<open>checkAndNotify\<close> is asynchronous. Its first part runs when it is called, up to
  \<open>await checkForNewArticles()\<close>: the guard, the flag, the notification of \<open>true\<close>,
  the call of the check. The flag is set and the listeners are notified before the
  \<open>try\<close> is entered, so an exception of a listener there rejects the promise of
  \<open>checkAndNotify\<close> at once: the check is not called and the \<open>finally\<close> block does
  not run. The attempt is skipped (the guard was set), rejected (a listener threw), or
  left awaiting the check.

  Its second part is the \<open>finally\<close> block, which runs when the awaited promise
  settles, resolved or rejected: it clears the flag, then notifies \<open>false\<close>. An
  exception of a listener there, or else the rejection of the check, rejects the
  promise of \<open>checkAndNotify\<close>.
\<close>

datatype attempt = Skipped | Rejected error | Awaiting

definition checkAndNotify_begin :: "bool behaviour \<Rightarrow> service_state \<Rightarrow> attempt \<times> service_state" where
  "checkAndNotify_begin sb st =
     (if isCurrentlyChecking st then (Skipped, st)
      else (let st1 = st\<lparr>isCurrentlyChecking := True\<rparr>
            in case notifyCheckingStatusListeners sb True st1 of
                 (Inl e, st2) \<Rightarrow> (Rejected e, st2)
               | (Inr u, st2) \<Rightarrow> (Awaiting, st2\<lparr>in_flight := in_flight st2 + 1\<rparr>)))"

definition checkAndNotify_end ::
  "bool behaviour \<Rightarrow> error + bool \<Rightarrow> service_state \<Rightarrow> (error + unit) \<times> service_state" where
  "checkAndNotify_end sb settled st =
     (let st1 = st\<lparr>in_flight := in_flight st - 1\<rparr>;
          st2 = st1\<lparr>isCurrentlyChecking := False\<rparr>
      in case notifyCheckingStatusListeners sb False st2 of
           (Inl e, st3) \<Rightarrow> (Inl e, st3)
         | (Inr u, st3) \<Rightarrow> (case settled of Inl e \<Rightarrow> (Inl e, st3) | Inr b \<Rightarrow> (Inr (), st3)))"

text \<open>
  \<open>startArticlePolling\<close> calls \<open>checkAndNotify()\<close> and drops its promise, so a
  rejected attempt does not keep it from installing the timer.
\<close>

definition startArticlePolling :: "bool behaviour \<Rightarrow> nat \<Rightarrow> service_state \<Rightarrow> service_state" where
  "startArticlePolling sb intervalMs st =
     (let st1 = (case pollingInterval st of
                   Some h \<Rightarrow> if h \<noteq> 0 then clearInterval h st else st
                 | None \<Rightarrow> st);
          st2 = snd (checkAndNotify_begin sb st1);
          (h, st3) = setInterval intervalMs st2
      in st3\<lparr>pollingInterval := Some h\<rparr>)"

definition stopArticlePolling :: "service_state \<Rightarrow> service_state" where
  "stopArticlePolling st =
     (case pollingInterval st of
        Some h \<Rightarrow> if h \<noteq> 0 then (clearInterval h st)\<lparr>pollingInterval := None\<rparr> else st
      | None \<Rightarrow> st)"

text \<open>
  What can happen to the poller, one event at a time: the exported functions are called,
  an installed timer fires (and calls \<open>checkAndNotify\<close>), a check in flight settles.
  A timer that is not installed does not fire; with no check in flight nothing settles.
\<close>

datatype service_event =
    StartPolling nat
  | StopPolling
  | TimerFires nat
  | CheckSettles "error + bool"
  | SubscribeStatus listener
  | UnsubscribeStatus listener

fun service_step :: "bool behaviour \<Rightarrow> service_state \<Rightarrow> service_event \<Rightarrow> service_state" where
  "service_step sb st (StartPolling intervalMs) = startArticlePolling sb intervalMs st"
| "service_step sb st StopPolling = stopArticlePolling st"
| "service_step sb st (TimerFires h) =
     (if h \<in> fst ` set (timers st) then snd (checkAndNotify_begin sb st) else st)"
| "service_step sb st (CheckSettles settled) =
     (if in_flight st > 0 then snd (checkAndNotify_end sb settled st) else st)"
| "service_step sb st (SubscribeStatus l) = subscribeToCheckingStatus l st"
| "service_step sb st (UnsubscribeStatus l) = unsubscribeFromCheckingStatus l st"

definition service_run :: "bool behaviour \<Rightarrow> service_state \<Rightarrow> service_event list \<Rightarrow> service_state" where
  "service_run sb st events = foldl (service_step sb) st events"

text \<open>The service as the module is loaded: nothing cached, no timer, not checking.\<close>

definition service_init :: "journal_state \<Rightarrow> service_state" where
  "service_init j =
     \<lparr>journal = j, latestArticles = [], newsUpdateListeners = [], pollingInterval = None,
      isCurrentlyChecking = False, checkingStatusListeners = [], timers = [], next_handle = 1,
      news_log = [], status_log = [], in_flight = 0\<rparr>"

subsection \<open>Read operations\<close>

text \<open>
  Each read operation is the body of its \<open>try\<close> and the body of its \<open>catch\<close>. The
  calls of the journal module take what that module reads from outside: the date, the
  response of the quote service and the draws. \<open>Category\<close> is a string.
\<close>

definition fetchAllArticles_try ::
  "mockNewsData \<Rightarrow> bool \<Rightarrow> string \<Rightarrow> response \<Rightarrow> (nat \<Rightarrow> draws) \<Rightarrow> service_state
     \<Rightarrow> (error + NewsArticle list) \<times> service_state" where
  "fetchAllArticles_try m forceRefresh currentDate resp rand st =
     (if length (latestArticles st) > 0 \<and> \<not> forceRefresh then (Inr (latestArticles st), st)
      else
        (let mockArticles = getAllArticles m
         in case fetchDailyJournalEntries currentDate resp rand (journal st) of
              (Inl e, j) \<Rightarrow> (Inl e, st\<lparr>journal := j\<rparr>)
            | (Inr journalArticles, j) \<Rightarrow>
                (let st' = st\<lparr>journal := j, latestArticles := mockArticles @ journalArticles\<rparr>
                 in (Inr (latestArticles st'), st'))))"

definition fetchAllArticles_catch ::
  "mockNewsData \<Rightarrow> service_state \<Rightarrow> (error + NewsArticle list) \<times> service_state" where
  "fetchAllArticles_catch m st =
     (if length (latestArticles st) > 0 then (Inr (latestArticles st), st)
      else (Inr (getAllArticles m), st))"

definition fetchAllArticles ::
  "mockNewsData \<Rightarrow> bool \<Rightarrow> string \<Rightarrow> response \<Rightarrow> (nat \<Rightarrow> draws) \<Rightarrow> service_state
     \<Rightarrow> (error + NewsArticle list) \<times> service_state" where
  "fetchAllArticles m forceRefresh currentDate resp rand st =
     (case fetchAllArticles_try m forceRefresh currentDate resp rand st of
        (Inr r, st') \<Rightarrow> (Inr r, st')
      | (Inl e, st') \<Rightarrow> fetchAllArticles_catch m st')"

definition fetchArticlesByCategory_try ::
  "mockNewsData \<Rightarrow> string \<Rightarrow> string \<Rightarrow> response \<Rightarrow> (nat \<Rightarrow> draws) \<Rightarrow> service_state
     \<Rightarrow> (error + NewsArticle list) \<times> service_state" where
  "fetchArticlesByCategory_try m category currentDate resp rand st =
     (if category = ''journal''
      then (case fetchDailyJournalEntries currentDate resp rand (journal st) of
              (r, j) \<Rightarrow> (r, st\<lparr>journal := j\<rparr>))
      else (Inr (getArticlesByCategory m category), st))"

definition fetchArticlesByCategory_catch ::
  "mockNewsData \<Rightarrow> string \<Rightarrow> service_state \<Rightarrow> (error + NewsArticle list) \<times> service_state" where
  "fetchArticlesByCategory_catch m category st = (Inr (getArticlesByCategory m category), st)"

definition fetchArticlesByCategory ::
  "mockNewsData \<Rightarrow> string \<Rightarrow> string \<Rightarrow> response \<Rightarrow> (nat \<Rightarrow> draws) \<Rightarrow> service_state
     \<Rightarrow> (error + NewsArticle list) \<times> service_state" where
  "fetchArticlesByCategory m category currentDate resp rand st =
     (case fetchArticlesByCategory_try m category currentDate resp rand st of
        (Inr r, st') \<Rightarrow> (Inr r, st')
      | (Inl e, st') \<Rightarrow> fetchArticlesByCategory_catch m category st')"

definition fetchTrendingArticles_try ::
  "mockNewsData \<Rightarrow> string \<Rightarrow> response \<Rightarrow> (nat \<Rightarrow> draws) \<Rightarrow> service_state
     \<Rightarrow> (error + NewsArticle list) \<times> service_state" where
  "fetchTrendingArticles_try m currentDate resp rand st =
     (let mockTrending = getTrendingArticles m
      in case fetchDailyJournalEntries currentDate resp rand (journal st) of
           (Inl e, j) \<Rightarrow> (Inl e, st\<lparr>journal := j\<rparr>)
         | (Inr journalArticles, j) \<Rightarrow>
             (let trendingJournalArticles = filter trending journalArticles
              in (Inr (mockTrending @ trendingJournalArticles), st\<lparr>journal := j\<rparr>)))"

definition fetchTrendingArticles_catch ::
  "mockNewsData \<Rightarrow> service_state \<Rightarrow> (error + NewsArticle list) \<times> service_state" where
  "fetchTrendingArticles_catch m st = (Inr (getTrendingArticles m), st)"

definition fetchTrendingArticles ::
  "mockNewsData \<Rightarrow> string \<Rightarrow> response \<Rightarrow> (nat \<Rightarrow> draws) \<Rightarrow> service_state
     \<Rightarrow> (error + NewsArticle list) \<times> service_state" where
  "fetchTrendingArticles m currentDate resp rand st =
     (case fetchTrendingArticles_try m currentDate resp rand st of
        (Inr r, st') \<Rightarrow> (Inr r, st')
      | (Inl e, st') \<Rightarrow> fetchTrendingArticles_catch m st')"

definition searchAllArticles_try ::
  "mockNewsData \<Rightarrow> string \<Rightarrow> string \<Rightarrow> response \<Rightarrow> (nat \<Rightarrow> draws) \<Rightarrow> service_state
     \<Rightarrow> (error + NewsArticle list) \<times> service_state" where
  "searchAllArticles_try m query currentDate resp rand st =
     (let mockResults = searchArticles m query
      in case fetchDailyJournalEntries currentDate resp rand (journal st) of
           (Inl e, j) \<Rightarrow> (Inl e, st\<lparr>journal := j\<rparr>)
         | (Inr journalArticles, j) \<Rightarrow>
             (let searchTerm = toLowerCase query;
                  journalResults =
                    filter (\<lambda>article. str_includes (toLowerCase (title article)) searchTerm \<or>
                                       str_includes (toLowerCase (summary article)) searchTerm)
                           journalArticles
              in (Inr (mockResults @ journalResults), st\<lparr>journal := j\<rparr>)))"

definition searchAllArticles_catch ::
  "mockNewsData \<Rightarrow> string \<Rightarrow> service_state \<Rightarrow> (error + NewsArticle list) \<times> service_state" where
  "searchAllArticles_catch m query st = (Inr (searchArticles m query), st)"

definition searchAllArticles ::
  "mockNewsData \<Rightarrow> string \<Rightarrow> string \<Rightarrow> response \<Rightarrow> (nat \<Rightarrow> draws) \<Rightarrow> service_state
     \<Rightarrow> (error + NewsArticle list) \<times> service_state" where
  "searchAllArticles m query currentDate resp rand st =
     (case searchAllArticles_try m query currentDate resp rand st of
        (Inr r, st') \<Rightarrow> (Inr r, st')
      | (Inl e, st') \<Rightarrow> searchAllArticles_catch m query st')"

definition fetchArticleById_try ::
  "mockNewsData \<Rightarrow> string \<Rightarrow> string \<Rightarrow> response \<Rightarrow> (nat \<Rightarrow> draws) \<Rightarrow> service_state
     \<Rightarrow> (error + NewsArticle option) \<times> service_state" where
  "fetchArticleById_try m ident currentDate resp rand st =
     (case getArticleById m ident of
        Some mockArticle \<Rightarrow> (Inr (Some mockArticle), st)
      | None \<Rightarrow>
          (case fetchJournalEntryById ident currentDate resp rand (journal st) of
             (journalArticle, j) \<Rightarrow> (journalArticle, st\<lparr>journal := j\<rparr>)))"

definition fetchArticleById_catch ::
  "mockNewsData \<Rightarrow> string \<Rightarrow> service_state \<Rightarrow> (error + NewsArticle option) \<times> service_state" where
  "fetchArticleById_catch m ident st = (Inr (getArticleById m ident), st)"

definition fetchArticleById ::
  "mockNewsData \<Rightarrow> string \<Rightarrow> string \<Rightarrow> response \<Rightarrow> (nat \<Rightarrow> draws) \<Rightarrow> service_state
     \<Rightarrow> (error + NewsArticle option) \<times> service_state" where
  "fetchArticleById m ident currentDate resp rand st =
     (case fetchArticleById_try m ident currentDate resp rand st of
        (Inr r, st') \<Rightarrow> (Inr r, st')
      | (Inl e, st') \<Rightarrow> fetchArticleById_catch m ident st')"

text \<open>
  \<open>[...related].sort(() => 0.5 - Math.random())\<close> rearranges the list in a way the
  program does not determine; the rearrangement is the parameter \<open>shuffle\<close>.
  \<open>slice(0, limit)\<close> is \<open>take limit\<close>.
\<close>

definition fetchRelatedArticles_try ::
  "mockNewsData \<Rightarrow> (NewsArticle list \<Rightarrow> NewsArticle list) \<Rightarrow> string \<Rightarrow> string \<Rightarrow> nat
     \<Rightarrow> string \<Rightarrow> response \<Rightarrow> (nat \<Rightarrow> draws) \<Rightarrow> service_state
     \<Rightarrow> (error + NewsArticle list) \<times> service_state" where
  "fetchRelatedArticles_try m shuffle currentArticleId category limit currentDate resp rand st =
     (if category = ''journal''
      then (case fetchDailyJournalEntries currentDate resp rand (journal st) of
              (Inl e, j) \<Rightarrow> (Inl e, st\<lparr>journal := j\<rparr>)
            | (Inr allJournalEntries, j) \<Rightarrow>
                (let related = filter (\<lambda>article. id' article \<noteq> currentArticleId) allJournalEntries;
                     shuffled = shuffle related
                 in (Inr (take limit shuffled), st\<lparr>journal := j\<rparr>)))
      else (Inr (getRelatedArticles m currentArticleId category limit), st))"

definition fetchRelatedArticles_catch ::
  "mockNewsData \<Rightarrow> string \<Rightarrow> string \<Rightarrow> nat \<Rightarrow> service_state
     \<Rightarrow> (error + NewsArticle list) \<times> service_state" where
  "fetchRelatedArticles_catch m currentArticleId category limit st =
     (Inr (getRelatedArticles m currentArticleId category limit), st)"

definition fetchRelatedArticles ::
  "mockNewsData \<Rightarrow> (NewsArticle list \<Rightarrow> NewsArticle list) \<Rightarrow> string \<Rightarrow> string \<Rightarrow> nat
     \<Rightarrow> string \<Rightarrow> response \<Rightarrow> (nat \<Rightarrow> draws) \<Rightarrow> service_state
     \<Rightarrow> (error + NewsArticle list) \<times> service_state" where
  "fetchRelatedArticles m shuffle currentArticleId category limit currentDate resp rand st =
     (case fetchRelatedArticles_try m shuffle currentArticleId category limit currentDate resp rand st of
        (Inr r, st') \<Rightarrow> (Inr r, st')
      | (Inl e, st') \<Rightarrow> fetchRelatedArticles_catch m currentArticleId category limit st')"

section \<open>Invariants and concrete inputs\<close>

text \<open>
  The invariants of the poller: the timer the module remembers is the only timer it has
  installed; and never more than one check is in flight, with the flag
  \<open>isCurrentlyChecking\<close> set while one is.
\<close>

definition poller_inv :: "service_state \<Rightarrow> bool" where
  "poller_inv st =
     (next_handle st > 0 \<and>
      (case pollingInterval st of
         None \<Rightarrow> timers st = []
       | Some h \<Rightarrow> h \<noteq> 0 \<and> (\<exists>ms. timers st = [(h, ms)])))"






definition example_article :: "string \<Rightarrow> string \<Rightarrow> string \<Rightarrow> NewsArticle" where
  "example_article ident summ auth =
     \<lparr>id' = ident, title = ''Daily Reflection: '' @ summ, source = ''Daily Journal'',
      author = auth, publishedAt = ''2024-05-01T08:00:00.000Z'', summary = summ,
      content = summ, imageUrl' = [], url = ''https://example.com/journal/'' @ ident,
      categories = [''journal''], trending = False\<rparr>"

definition example_quote :: QuoteResponse where
  "example_quote =
     \<lparr>q_id = ''q1'', q_content = ''Stay calm'', q_author = ''Ann'', q_tags = [],
      q_dateAdded = ''2024-01-01''\<rparr>"

definition example_draws :: "nat \<Rightarrow> draws" where
  "example_draws index =
     \<lparr>d_uuid = ''uuid'', d_publishedAt = ''2024-05-01T08:00:00.000Z'', d_trending = False,
      d_theme = index\<rparr>"

definition example_cache :: "string \<Rightarrow> NewsArticle list \<Rightarrow> stored option" where
  "example_cache day es = Some (Parsed \<lparr>date = day, entries = Some es\<rparr>)"

definition example_journal :: "stored option \<Rightarrow> journal_state" where
  "example_journal item =
     \<lparr>lastFetchTimestamp = 0, localStorage = item, articleUpdateListeners = [7],
      journal_log = []\<rparr>"

definition example_two_cached :: journal_state where
  "example_two_cached =
     example_journal (example_cache ''2024-05-01''
       [example_article ''a'' ''Stay calm'' ''Ann'', example_article ''b'' ''Be bold'' ''Bob''])"

definition five_articles :: "NewsArticle list" where
  "five_articles =
     [example_article ''1'' ''One'' ''Ann'', example_article ''2'' ''Two'' ''Bob'',
      example_article ''3'' ''Three'' ''Cy'', example_article ''4'' ''Four'' ''Di'',
      example_article ''5'' ''Five'' ''Ed'']"

definition example_clients :: provider_clients where
  "example_clients =
     \<lparr>fetchMediaStackArticles = (\<lambda>n category limit. Inl FetchRejected),
      fetchNewsApiArticles = (\<lambda>n category limit. Inr []),
      fetchGuardianArticles = (\<lambda>n category limit. Inr five_articles)\<rparr>"

definition example_aggregator :: aggregator_state where
  "example_aggregator = \<lparr>latestArticlesBySource = (\<lambda>apiSource. []), invoked = []\<rparr>"

definition example_mock :: mockNewsData where
  "example_mock =
     \<lparr>getAllArticles = [example_article ''m'' ''Mock'' ''Mo''],
      getArticlesByCategory = (\<lambda>category. []),
      getTrendingArticles = [],
      searchArticles = (\<lambda>query. []),
      getArticleById = (\<lambda>ident. None),
      getRelatedArticles = (\<lambda>currentArticleId category limit. [])\<rparr>"

definition example_service :: service_state where
  "example_service =
     (service_init (example_journal (Some Corrupt)))
       \<lparr>latestArticles := [example_article ''a'' ''Stay calm'' ''Ann'']\<rparr>"

section \<open>Properties of the theme matcher\<close>

lemma THEMED_JOURNAL_IMAGES_length: "length THEMED_JOURNAL_IMAGES = 12"
  by (simp add: THEMED_JOURNAL_IMAGES_def)

lemma hd_insort_key:
  "hd (insort_key f x ys) = (if ys = [] \<or> f x \<le> f (hd ys) then x else hd ys)"
  by (cases ys) auto

text \<open>
  The head of a stable sort is the first element, in the original order, whose key is
  minimal.
\<close>

lemma hd_sort_key_first_min:
  "xs \<noteq> [] \<Longrightarrow>
   \<exists>i<length xs. hd (sort_key f xs) = xs ! i \<and>
     (\<forall>j<length xs. f (xs ! i) \<le> f (xs ! j)) \<and> (\<forall>j<i. f (xs ! i) < f (xs ! j))"
proof (induction xs)
  case Nil
  then show ?case by simp
next
  case (Cons x xs)
  show ?case
  proof (cases "xs = []")
    case True
    then show ?thesis by simp
  next
    case False
    from Cons.IH [OF False] obtain i where i: "i < length xs"
      and hd_i: "hd (sort_key f xs) = xs ! i"
      and min_i: "\<forall>j<length xs. f (xs ! i) \<le> f (xs ! j)"
      and first_i: "\<forall>j<i. f (xs ! i) < f (xs ! j)"
      by blast
    have ne: "sort_key f xs \<noteq> []"
      using False by (metis length_0_conv length_sort)
    have hd_eq: "hd (sort_key f (x # xs)) = (if f x \<le> f (xs ! i) then x else xs ! i)"
      using ne hd_i by (simp add: hd_insort_key)
    show ?thesis
    proof (cases "f x \<le> f (xs ! i)")
      case True
      have "\<forall>j<length (x # xs). f ((x # xs) ! 0) \<le> f ((x # xs) ! j)"
      proof (intro allI impI)
        fix j assume "j < length (x # xs)"
        then show "f ((x # xs) ! 0) \<le> f ((x # xs) ! j)"
          using True min_i by (cases j) (auto intro: order_trans)
      qed
      then show ?thesis using True hd_eq by (intro exI [of _ 0]) simp
    next
      case False
      have "\<forall>j<length (x # xs). f ((x # xs) ! Suc i) \<le> f ((x # xs) ! j)"
      proof (intro allI impI)
        fix j assume "j < length (x # xs)"
        then show "f ((x # xs) ! Suc i) \<le> f ((x # xs) ! j)"
          using False min_i by (cases j) auto
      qed
      moreover have "\<forall>j<Suc i. f ((x # xs) ! Suc i) < f ((x # xs) ! j)"
      proof (intro allI impI)
        fix j assume "j < Suc i"
        then show "f ((x # xs) ! Suc i) < f ((x # xs) ! j)"
          using False first_i by (cases j) auto
      qed
      ultimately show ?thesis using False hd_eq i by (intro exI [of _ "Suc i"]) simp
    qed
  qed
qed

lemma overcome_scores:
  "map (score (combinedText ''We shall overcome'' [])) THEMED_JOURNAL_IMAGES =
     [0, 0, 0, 0, 0, 0, 0, 0, 1 / 7, 0, 0, 1 / 7]"
  by code_simp

lemma less_12_cases:
  "i < (12::nat) \<Longrightarrow> i = 0 \<or> i = 1 \<or> i = 2 \<or> i = 3 \<or> i = 4 \<or> i = 5 \<or> i = 6 \<or> i = 7 \<or>
     i = 8 \<or> i = 9 \<or> i = 10 \<or> i = 11"
  by arith

text \<open>
  C9. Whenever some theme of the table scores above zero on the combined text,
  \<open>findRelevantImage\<close> returns the image and description of a theme of the table whose
  score (matching keywords divided by the theme's number of keywords) is maximal, and
  every theme before it in the table scores strictly less: among the themes with the
  maximal score the first in definition order wins.
\<close>

theorem findRelevantImage_best_first:
  assumes "\<exists>th \<in> set THEMED_JOURNAL_IMAGES. score (combinedText quoteContent tags) th > 0"
  shows "\<exists>i<length THEMED_JOURNAL_IMAGES.
           findRelevantImage rnd quoteContent tags =
             (imageUrl (THEMED_JOURNAL_IMAGES ! i), description (THEMED_JOURNAL_IMAGES ! i)) \<and>
           (\<forall>j<length THEMED_JOURNAL_IMAGES.
              score (combinedText quoteContent tags) (THEMED_JOURNAL_IMAGES ! j)
                \<le> score (combinedText quoteContent tags) (THEMED_JOURNAL_IMAGES ! i)) \<and>
           (\<forall>j<i. score (combinedText quoteContent tags) (THEMED_JOURNAL_IMAGES ! j)
                < score (combinedText quoteContent tags) (THEMED_JOURNAL_IMAGES ! i))"
proof -
  define ct where "ct = combinedText quoteContent tags"
  define T where "T = THEMED_JOURNAL_IMAGES"
  define f where "f = (\<lambda>ts :: ThemeImage \<times> rat. - snd ts)"
  have len: "length (themeScores ct) = length T"
    by (simp add: themeScores_def T_def)
  have nth: "\<And>j. j < length T \<Longrightarrow> themeScores ct ! j = (T ! j, score ct (T ! j))"
    by (simp add: themeScores_def T_def)
  have "themeScores ct \<noteq> []"
    using len by (auto simp: T_def THEMED_JOURNAL_IMAGES_length)
  from hd_sort_key_first_min [OF this, of f] obtain i where i: "i < length T"
    and hd_i: "hd (sort_key f (themeScores ct)) = themeScores ct ! i"
    and min_i: "\<forall>j<length T. f (themeScores ct ! i) \<le> f (themeScores ct ! j)"
    and first_i: "\<forall>j<i. f (themeScores ct ! i) < f (themeScores ct ! j)"
    using len by auto
  have best: "hd (sort_key f (themeScores ct)) = (T ! i, score ct (T ! i))"
    using hd_i nth [OF i] by simp
  have max_i: "\<forall>j<length T. score ct (T ! j) \<le> score ct (T ! i)"
    using min_i nth i by (simp add: f_def)
  have before_i: "\<forall>j<i. score ct (T ! j) < score ct (T ! i)"
    using first_i nth i by (simp add: f_def)
  from assms obtain th where "th \<in> set T" and pos: "score ct th > 0"
    by (auto simp: T_def ct_def)
  then obtain k where "k < length T" and "T ! k = th"
    by (auto simp: in_set_conv_nth)
  with max_i pos have "score ct (T ! i) > 0"
    by (metis less_le_trans)
  then have "findRelevantImage rnd quoteContent tags = (imageUrl (T ! i), description (T ! i))"
    using best by (simp add: findRelevantImage_def Let_def ct_def [symmetric] f_def [symmetric])
  then show ?thesis
    using i max_i before_i unfolding T_def ct_def by blast
qed

text \<open>
  An instance: in \<open>We shall overcome\<close> the themes \<open>courage\<close> (row 8 of the table) and
  \<open>resilience\<close> (row 11) both match one keyword of seven, no other theme matches, and
  the image is that of \<open>courage\<close>.
\<close>

theorem findRelevantImage_best_first_witness:
  "score (combinedText ''We shall overcome'' []) (THEMED_JOURNAL_IMAGES ! 8) = 1 / 7 \<and>
   score (combinedText ''We shall overcome'' []) (THEMED_JOURNAL_IMAGES ! 11) = 1 / 7 \<and>
   findRelevantImage 0 ''We shall overcome'' [] =
     (imageUrl (THEMED_JOURNAL_IMAGES ! 8), description (THEMED_JOURNAL_IMAGES ! 8))"
proof -
  let ?ct = "combinedText ''We shall overcome'' []"
  let ?T = "THEMED_JOURNAL_IMAGES"
  let ?S = "[0, 0, 0, 0, 0, 0, 0, 0, 1 / 7, 0, 0, 1 / 7 :: rat]"
  have sc: "score ?ct (?T ! j) = ?S ! j" if "j < 12" for j
  proof -
    have "map (score ?ct) ?T ! j = score ?ct (?T ! j)"
      using that by (simp add: THEMED_JOURNAL_IMAGES_length)
    then show ?thesis using overcome_scores by simp
  qed
  have s8: "score ?ct (?T ! 8) = 1 / 7" using sc [of 8] by simp
  have s11: "score ?ct (?T ! 11) = 1 / 7" using sc [of 11] by simp
  have "?T ! 8 \<in> set ?T"
    by (simp add: THEMED_JOURNAL_IMAGES_length)
  with s8 have h: "\<exists>th \<in> set ?T. score ?ct th > 0"
    by (intro bexI [of _ "?T ! 8"]) simp_all
  from findRelevantImage_best_first [OF h, of 0] obtain i where i: "i < 12"
    and res: "findRelevantImage 0 ''We shall overcome'' [] = (imageUrl (?T ! i), description (?T ! i))"
    and mx: "\<forall>j<12. score ?ct (?T ! j) \<le> score ?ct (?T ! i)"
    and before: "\<forall>j<i. score ?ct (?T ! j) < score ?ct (?T ! i)"
    unfolding THEMED_JOURNAL_IMAGES_length by blast
  have "(8::nat) < 12" by simp
  with mx have "score ?ct (?T ! 8) \<le> score ?ct (?T ! i)" by blast
  then have ge: "1 / 7 \<le> ?S ! i" using s8 sc [OF i] by simp
  have "i \<noteq> 11"
  proof
    assume "i = 11"
    then have "(8::nat) < i" by simp
    with before have "score ?ct (?T ! 8) < score ?ct (?T ! i)" by blast
    with s8 s11 \<open>i = 11\<close> show False by simp
  qed
  with less_12_cases [OF i] ge have "i = 8"
    by (elim disjE) simp_all
  with res s8 s11 show ?thesis by simp
qed

section \<open>Properties of the notification fan-out\<close>

text \<open>
  When no listener throws or touches the registry, \<open>forEach\<close> calls every listener
  of the registry once, in order; when none throws, no exception leaves it.
\<close>

lemma forEach_quiet:
  assumes "\<forall>i l. r_ops (react i l) = [] \<and> \<not> r_throws (react i l)"
    and "k + n = length reg"
  shows "forEach react k n reg called = (None, reg, called @ drop k reg)"
  using assms(2)
proof (induction n arbitrary: k called)
  case 0
  then show ?case by simp
next
  case (Suc n)
  then have k: "k < length reg" and rest: "Suc k + n = length reg" by simp_all
  have "forEach react k (Suc n) reg called = forEach react (Suc k) n reg (called @ [reg ! k])"
    using k assms(1) by (simp add: Let_def)
  also have "\<dots> = (None, reg, (called @ [reg ! k]) @ drop (Suc k) reg)"
    by (rule Suc.IH [OF rest])
  also have "(called @ [reg ! k]) @ drop (Suc k) reg = called @ drop k reg"
    using k by (simp add: Cons_nth_drop_Suc)
  finally show ?case .
qed

lemma forEach_no_throw:
  assumes "\<forall>i l. \<not> r_throws (react i l)"
  shows "fst (forEach react k n reg called) = None"
  using assms by (induction n arbitrary: k reg called) (simp_all add: Let_def)

lemma notifyArticleUpdateListeners_shape:
  "\<exists>r reg' called. notifyArticleUpdateListeners ab articles s =
     (r, s\<lparr>articleUpdateListeners := reg',
           journal_log := journal_log s @ [Publish articles] @ map (\<lambda>l. Deliver l articles) called\<rparr>) \<and>
     ((\<forall>t l. \<not> r_throws (ab t l articles)) \<longrightarrow> r = Inr ()) \<and>
     ((\<forall>t l. \<not> r_throws (ab t l articles) \<and> r_ops (ab t l articles) = []) \<longrightarrow>
        reg' = articleUpdateListeners s \<and> called = articleUpdateListeners s)"
proof -
  let ?s1 = "s\<lparr>journal_log := journal_log s @ [Publish articles]\<rparr>"
  let ?react = "\<lambda>i l. ab (length (journal_log ?s1) + i) l articles"
  let ?reg = "articleUpdateListeners s"
  obtain thrown reg' called where fe: "forEach ?react 0 (length ?reg) ?reg [] = (thrown, reg', called)"
    by (metis prod_cases3)
  have nt: "thrown = None" if "\<forall>t l. \<not> r_throws (ab t l articles)"
    using forEach_no_throw [of ?react 0 "length ?reg" ?reg "[]"] that fe by simp
  have q: "reg' = ?reg \<and> called = ?reg"
    if "\<forall>t l. \<not> r_throws (ab t l articles) \<and> r_ops (ab t l articles) = []"
  proof -
    from that have "\<forall>i l. r_ops (?react i l) = [] \<and> \<not> r_throws (?react i l)"
      by blast
    then have "forEach ?react 0 (length ?reg) ?reg [] = (None, ?reg, [] @ drop 0 ?reg)"
      by (rule forEach_quiet) simp
    then have f2: "forEach ?react 0 (length ?reg) ?reg [] = (None, ?reg, ?reg)"
      by simp
    from fe [unfolded f2] show ?thesis by auto
  qed
  have eq: "notifyArticleUpdateListeners ab articles s =
     ((case thrown of Some e \<Rightarrow> Inl e | None \<Rightarrow> Inr ()),
      s\<lparr>articleUpdateListeners := reg',
        journal_log := journal_log s @ [Publish articles] @ map (\<lambda>l. Deliver l articles) called\<rparr>)"
    using fe by (cases thrown) (simp_all add: notifyArticleUpdateListeners_def Let_def)
  have r: "(\<forall>t l. \<not> r_throws (ab t l articles)) \<longrightarrow>
      (case thrown of Some e \<Rightarrow> Inl e | None \<Rightarrow> Inr ()) = Inr ()"
    using nt by simp
  from eq r q show ?thesis by blast
qed

section \<open>Properties of the cache and change detector\<close>




lemma fetchQuotes_log: "fetchQuotes resp s = (r, s') \<Longrightarrow> s' = s\<lparr>journal_log := journal_log s @ [Fetch]\<rparr>"
  by (auto simp: fetchQuotes_def Let_def split: response.splits body.splits if_splits)

lemma find_id: "find (\<lambda>entry. id' entry = ident) es = Some a \<Longrightarrow> id' a = ident \<and> a \<in> set es"
  by (auto simp: find_Some_iff)



text \<open>
  When no listener throws, the \<open>catch\<close> is not what returns \<open>false\<close>, so the same
  holds of every such call that resolves to \<open>false\<close>.
\<close>

lemma checkForNewArticles_false_quiet_listeners:
  assumes "30000 \<le> currentTimestamp - lastFetchTimestamp s"
    and "localStorage s \<noteq> Some Corrupt"
    and "resp = Response status (Json quotes)" and "ok status"
    and "\<forall>t l. \<not> r_throws (ab t l (transformQuotes rand quotes))"
    and "fst (checkForNewArticles ab currentTimestamp currentDate resp rand s) = Inr False"
  shows "\<exists>cached \<in> set (persistedEntries s). \<exists>latest \<in> set (transformQuotes rand quotes).
           summary latest = summary cached \<and> author latest = author cached"
proof -
  let ?latest = "transformQuotes rand quotes"
  let ?s2 = "s\<lparr>lastFetchTimestamp := currentTimestamp, journal_log := journal_log s @ [Fetch]\<rparr>"
  from notifyArticleUpdateListeners_shape [of ab ?latest "setItem currentDate ?latest ?s2"] assms(5)
  obtain s3 where n: "notifyArticleUpdateListeners ab ?latest (setItem currentDate ?latest ?s2) = (Inr (), s3)"
    by blast
  have "\<not> hasNewContent (persistedEntries s) ?latest"
  proof
    assume "hasNewContent (persistedEntries s) ?latest"
    with assms(1-4) n have "fst (checkForNewArticles ab currentTimestamp currentDate resp rand s) = Inr True"
      by (auto simp: checkForNewArticles_def checkForNewArticles_try_def fetchQuotes_def
          persistedEntries_def Let_def split: option.splits stored.splits)
    with assms(6) show False by simp
  qed
  then show ?thesis
    by (auto simp: hasNewContent_def list_ex_iff)
qed


text \<open>
  C3. When the persisted record carries today's date and a non-empty list of entries,
  \<open>fetchDailyJournalEntries\<close> resolves to exactly these entries and leaves the state as
  it is: the log gains no \<open>Fetch\<close>, so no network call is made. A second call on the same
  day, whatever the network would answer, gives the same entries and again changes
  nothing.
\<close>

theorem fetchDailyJournalEntries_same_day_cache:
  assumes "localStorage s = Some (Parsed r)" and "date r = currentDate"
    and "entries r = Some es" and "es \<noteq> []"
  shows "fetchDailyJournalEntries currentDate resp rand s = (Inr es, s) \<and>
         fetchDailyJournalEntries currentDate resp' rand'
           (snd (fetchDailyJournalEntries currentDate resp rand s)) = (Inr es, s)"
  using assms by (simp add: fetchDailyJournalEntries_def fetchDailyJournalEntries_try_def)

text \<open>
  An instance: a record of today with one entry; the network is down at the first
  call and up at the second.
\<close>

theorem fetchDailyJournalEntries_same_day_cache_witness:
  "localStorage (example_journal (example_cache ''2024-05-02'' [example_article ''a'' ''Stay calm'' ''Ann'']))
     = Some (Parsed \<lparr>date = ''2024-05-02'', entries = Some [example_article ''a'' ''Stay calm'' ''Ann'']\<rparr>) \<and>
   fetchDailyJournalEntries ''2024-05-02'' NetworkFailure example_draws
     (example_journal (example_cache ''2024-05-02'' [example_article ''a'' ''Stay calm'' ''Ann'']))
     = (Inr [example_article ''a'' ''Stay calm'' ''Ann''],
        example_journal (example_cache ''2024-05-02'' [example_article ''a'' ''Stay calm'' ''Ann''])) \<and>
   fetchDailyJournalEntries ''2024-05-02'' (Response 200 (Json [example_quote])) example_draws
     (snd (fetchDailyJournalEntries ''2024-05-02'' NetworkFailure example_draws
        (example_journal (example_cache ''2024-05-02'' [example_article ''a'' ''Stay calm'' ''Ann'']))))
     = (Inr [example_article ''a'' ''Stay calm'' ''Ann''],
        example_journal (example_cache ''2024-05-02'' [example_article ''a'' ''Stay calm'' ''Ann'']))"
proof -
  let ?es = "[example_article ''a'' ''Stay calm'' ''Ann'']"
  let ?r = "\<lparr>date = ''2024-05-02'', entries = Some ?es\<rparr>"
  have h1: "localStorage (example_journal (example_cache ''2024-05-02'' ?es)) = Some (Parsed ?r)"
    by (simp add: example_journal_def example_cache_def)
  have h2: "date ?r = ''2024-05-02''" by simp
  have h3: "entries ?r = Some ?es" by simp
  have h4: "?es \<noteq> []" by simp
  from fetchDailyJournalEntries_same_day_cache [OF h1 h2 h3 h4,
      of NetworkFailure example_draws "Response 200 (Json [example_quote])" example_draws]
  show ?thesis using h1 by blast
qed

text \<open>
  The same holds after a first call that had to fetch: with no record stored, a fetch
  that brings at least one quote stores the entries under today's date, and the second
  call of the day returns them with no further network call.
\<close>

lemma fetchDailyJournalEntries_after_fetch:
  assumes "localStorage s = None" and "resp = Response status (Json quotes)" and "ok status"
    and "quotes \<noteq> []"
  shows "\<exists>es s1. fetchDailyJournalEntries currentDate resp rand s = (Inr es, s1) \<and>
           journal_log s1 = journal_log s @ [Fetch] \<and>
           fetchDailyJournalEntries currentDate resp' rand' s1 = (Inr es, s1)"
  using assms
  by (simp add: fetchDailyJournalEntries_def fetchDailyJournalEntries_try_def fetchQuotes_def
      setItem_def transformQuotes_def Let_def)

text \<open>
  C4. When the \<open>try\<close> block of \<open>fetchDailyJournalEntries\<close> raises an error of the
  network path (the request fails, the response is not ok, or its body is not JSON),
  the operation does not reject: it resolves to the entries of the persisted record,
  whatever its date, and to the empty list when there is no record or the record has no
  entries. The only change of the state is the logged network call.
\<close>

theorem fetchDailyJournalEntries_network_error_fallback:
  assumes "fetchDailyJournalEntries_try currentDate resp rand s = (Inl e, s')"
    and "e \<noteq> CacheParseError"
  shows "fetchDailyJournalEntries currentDate resp rand s = (Inr (persistedEntries s), s') \<and>
         s' = s\<lparr>journal_log := journal_log s @ [Fetch]\<rparr>"
  using assms
  by (auto simp: fetchDailyJournalEntries_def fetchDailyJournalEntries_try_def
      fetchDailyJournalEntries_catch_def persistedEntries_def Let_def
      dest!: fetchQuotes_log
      split: option.splits stored.splits if_splits prod.splits sum.splits)

text \<open>
  An instance: the request fails and the record is of the day before.
\<close>

theorem fetchDailyJournalEntries_network_error_fallback_witness:
  "fetchDailyJournalEntries_try ''2024-05-02'' NetworkFailure example_draws example_two_cached
     = (Inl FetchRejected, example_two_cached\<lparr>journal_log := [Fetch]\<rparr>) \<and>
   FetchRejected \<noteq> CacheParseError \<and>
   fetchDailyJournalEntries ''2024-05-02'' NetworkFailure example_draws example_two_cached
     = (Inr [example_article ''a'' ''Stay calm'' ''Ann'', example_article ''b'' ''Be bold'' ''Bob''],
        example_two_cached\<lparr>journal_log := [Fetch]\<rparr>)"
proof -
  have h1: "fetchDailyJournalEntries_try ''2024-05-02'' NetworkFailure example_draws example_two_cached
     = (Inl FetchRejected, example_two_cached\<lparr>journal_log := [Fetch]\<rparr>)"
    by (simp add: fetchDailyJournalEntries_try_def fetchQuotes_def example_two_cached_def
        example_journal_def example_cache_def)
  have h2: "FetchRejected \<noteq> CacheParseError" by simp
  have p: "persistedEntries example_two_cached =
      [example_article ''a'' ''Stay calm'' ''Ann'', example_article ''b'' ''Be bold'' ''Bob'']"
    by (simp add: persistedEntries_def example_two_cached_def example_journal_def example_cache_def)
  from fetchDailyJournalEntries_network_error_fallback [OF h1 h2]
  show ?thesis using h1 p by simp
qed




text \<open>
  C10. For every id, cache and network outcome, \<open>fetchJournalEntryById\<close> resolves
  (never rejects), and what it resolves to is \<open>null\<close> or an article whose id is the
  requested id, taken from the cached entries or from the entries that
  \<open>fetchDailyJournalEntries\<close> returns.
\<close>

theorem fetchJournalEntryById_never_throws:
  "\<exists>r s'. fetchJournalEntryById ident currentDate resp rand s = (Inr r, s') \<and>
     (case r of
        None \<Rightarrow> True
      | Some a \<Rightarrow> id' a = ident \<and>
          (a \<in> set (persistedEntries s) \<or>
           (\<exists>es s1. fetchDailyJournalEntries currentDate resp rand s = (Inr es, s1) \<and> a \<in> set es)))"
proof (cases "fetchJournalEntryById_try ident currentDate resp rand s")
  case (Pair res s')
  show ?thesis
  proof (cases res)
    case (Inl e)
    with Pair show ?thesis by (simp add: fetchJournalEntryById_def)
  next
    case (Inr r)
    with Pair have eq: "fetchJournalEntryById ident currentDate resp rand s = (Inr r, s')"
      by (simp add: fetchJournalEntryById_def)
    show ?thesis
    proof (cases r)
      case None
      with eq show ?thesis by simp
    next
      case (Some a)
      from Pair Inr Some have
        "id' a = ident \<and>
          (a \<in> set (persistedEntries s) \<or>
           (\<exists>es s1. fetchDailyJournalEntries currentDate resp rand s = (Inr es, s1) \<and> a \<in> set es))"
        by (auto simp: fetchJournalEntryById_try_def persistedEntries_def
            split: option.splits stored.splits if_splits prod.splits sum.splits
            dest: find_id)
      with eq Some show ?thesis by simp
    qed
  qed
qed

section \<open>Properties of the fallback aggregator\<close>

lemma yields_nothing_cases:
  "yields_nothing r \<Longrightarrow> (\<exists>e. r = Inl e) \<or> r = Inr []"
  by (auto simp: yields_nothing_def split: sum.splits)

lemma loop_skip:
  assumes "\<forall>i<length pre. yields_nothing (callProvider clients (length (invoked st) + i) (pre ! i) category limit)"
  shows "fetchArticlesFromAllSources clients category limit (pre @ rest) st =
         fetchArticlesFromAllSources clients category limit rest (st\<lparr>invoked := invoked st @ pre\<rparr>)"
  using assms
proof (induction pre arbitrary: st)
  case Nil
  then show ?case by simp
next
  case (Cons p pre)
  let ?st1 = "st\<lparr>invoked := invoked st @ [p]\<rparr>"
  from Cons.prems have p: "yields_nothing (callProvider clients (length (invoked st)) p category limit)"
    by (metis add.right_neutral length_greater_0_conv list.distinct(1) nth_Cons_0)
  have "\<forall>i<length pre. yields_nothing (callProvider clients (length (invoked ?st1) + i) (pre ! i) category limit)"
  proof (intro allI impI)
    fix i assume "i < length pre"
    then have "Suc i < length (p # pre)" by simp
    with Cons.prems have "yields_nothing (callProvider clients (length (invoked st) + Suc i) ((p # pre) ! Suc i) category limit)"
      by blast
    then show "yields_nothing (callProvider clients (length (invoked ?st1) + i) (pre ! i) category limit)"
      by simp
  qed
  from Cons.IH [OF this] have IH: "fetchArticlesFromAllSources clients category limit (pre @ rest) ?st1 =
     fetchArticlesFromAllSources clients category limit rest (?st1\<lparr>invoked := invoked ?st1 @ pre\<rparr>)" .
  from yields_nothing_cases [OF p] show ?case
  proof
    assume "\<exists>e. callProvider clients (length (invoked st)) p category limit = Inl e"
    then show ?thesis using IH by (auto simp: Let_def)
  next
    assume "callProvider clients (length (invoked st)) p category limit = Inr []"
    then show ?thesis using IH by (auto simp: Let_def)
  qed
qed

text \<open>
  C2. The providers are invoked in the order of the priority list. If the providers of
  a prefix of the list each raise or return no article and the next provider returns a
  non-empty list, the result is exactly that list, the providers invoked are the prefix
  and that provider, nothing after it, and the list is stored under that provider's
  key. If every provider of the list raises or returns no article, the result is the
  empty list, not an error, every provider has been invoked once, in order, and nothing
  is stored.
\<close>

theorem fetchArticlesFromAllSources_first_success:
  "(apiPriority = pre @ apiSource # post \<and>
    (\<forall>i<length pre. yields_nothing
        (callProvider clients (length (invoked st) + i) (pre ! i) category limit)) \<and>
    callProvider clients (length (invoked st) + length pre) apiSource category limit = Inr articles \<and>
    articles \<noteq> []
    \<longrightarrow> fetchArticlesFromAllSources clients category limit apiPriority st =
          (Inr articles,
           st\<lparr>invoked := invoked st @ pre @ [apiSource],
              latestArticlesBySource := (latestArticlesBySource st)(apiSource := articles)\<rparr>)) \<and>
   ((\<forall>i<length apiPriority'. yields_nothing
        (callProvider clients (length (invoked st)  + i) (apiPriority' ! i) category limit))
    \<longrightarrow> fetchArticlesFromAllSources clients category limit apiPriority' st =
          (Inr [], st\<lparr>invoked := invoked st @ apiPriority'\<rparr>))"
proof (intro conjI impI)
  assume a: "apiPriority = pre @ apiSource # post \<and>
    (\<forall>i<length pre. yields_nothing
        (callProvider clients (length (invoked st) + i) (pre ! i) category limit)) \<and>
    callProvider clients (length (invoked st) + length pre) apiSource category limit = Inr articles \<and>
    articles \<noteq> []"
  then have "fetchArticlesFromAllSources clients category limit apiPriority st =
     fetchArticlesFromAllSources clients category limit (apiSource # post) (st\<lparr>invoked := invoked st @ pre\<rparr>)"
    using loop_skip [of pre clients st category limit "apiSource # post"] by simp
  also have "\<dots> = (Inr articles,
           st\<lparr>invoked := invoked st @ pre @ [apiSource],
              latestArticlesBySource := (latestArticlesBySource st)(apiSource := articles)\<rparr>)"
    using a by (simp add: Let_def)
  finally show "fetchArticlesFromAllSources clients category limit apiPriority st =
          (Inr articles,
           st\<lparr>invoked := invoked st @ pre @ [apiSource],
              latestArticlesBySource := (latestArticlesBySource st)(apiSource := articles)\<rparr>)" .
next
  assume "\<forall>i<length apiPriority'. yields_nothing
        (callProvider clients (length (invoked st)  + i) (apiPriority' ! i) category limit)"
  then show "fetchArticlesFromAllSources clients category limit apiPriority' st =
          (Inr [], st\<lparr>invoked := invoked st @ apiPriority'\<rparr>)"
    using loop_skip [of apiPriority' clients st category limit "[]"] by simp
qed

text \<open>
  An instance: the first provider raises, the second returns nothing and the third
  returns five articles; and the list of the first two providers alone.
\<close>

theorem fetchArticlesFromAllSources_first_success_witness:
  "yields_nothing (callProvider example_clients 0 MEDIASTACK None 10) \<and>
   yields_nothing (callProvider example_clients 1 NEWSAPI None 10) \<and>
   callProvider example_clients 2 GUARDIAN None 10 = Inr five_articles \<and>
   length five_articles = 5 \<and>
   fetchArticlesFromAllSources example_clients None 10 API_PRIORITY example_aggregator =
     (Inr five_articles,
      \<lparr>latestArticlesBySource = (\<lambda>apiSource. [])(GUARDIAN := five_articles),
       invoked = [MEDIASTACK, NEWSAPI, GUARDIAN]\<rparr>) \<and>
   fetchArticlesFromAllSources example_clients None 10 [MEDIASTACK, NEWSAPI] example_aggregator =
     (Inr [], \<lparr>latestArticlesBySource = (\<lambda>apiSource. []), invoked = [MEDIASTACK, NEWSAPI]\<rparr>)"
proof -
  have y0: "yields_nothing (callProvider example_clients 0 MEDIASTACK None 10)"
    and y1: "yields_nothing (callProvider example_clients 1 NEWSAPI None 10)"
    by (simp_all add: yields_nothing_def callProvider_def example_clients_def)
  have h1: "\<forall>i<length [MEDIASTACK, NEWSAPI]. yields_nothing
       (callProvider example_clients (length (invoked example_aggregator) + i)
          ([MEDIASTACK, NEWSAPI] ! i) None 10)"
    using y0 y1 by (simp add: All_less_Suc example_aggregator_def)
  have h2: "callProvider example_clients 2 GUARDIAN None 10 = Inr five_articles"
    by (simp add: callProvider_def example_clients_def)
  have h2': "callProvider example_clients
       (length (invoked example_aggregator) + length [MEDIASTACK, NEWSAPI]) GUARDIAN None 10
       = Inr five_articles"
    by (simp add: callProvider_def example_clients_def)
  have h3: "five_articles \<noteq> []" "length five_articles = 5"
    by (simp_all add: five_articles_def)
  have h0: "API_PRIORITY = [MEDIASTACK, NEWSAPI] @ GUARDIAN # []"
    by (simp add: API_PRIORITY_def)
  note inst = fetchArticlesFromAllSources_first_success
    [of API_PRIORITY "[MEDIASTACK, NEWSAPI]" GUARDIAN "[]" example_clients example_aggregator
        None 10 five_articles "[MEDIASTACK, NEWSAPI]"]
  from inst h0 h1 h2' h3 have
    "fetchArticlesFromAllSources example_clients None 10 API_PRIORITY example_aggregator =
     (Inr five_articles,
      \<lparr>latestArticlesBySource = (\<lambda>apiSource. [])(GUARDIAN := five_articles),
       invoked = [MEDIASTACK, NEWSAPI, GUARDIAN]\<rparr>) \<and>
   fetchArticlesFromAllSources example_clients None 10 [MEDIASTACK, NEWSAPI] example_aggregator =
     (Inr [], \<lparr>latestArticlesBySource = (\<lambda>apiSource. []), invoked = [MEDIASTACK, NEWSAPI]\<rparr>)"
    by (simp add: example_aggregator_def)
  with y0 y1 h2 h3 show ?thesis by blast
qed

section \<open>Properties of the unified article service\<close>

lemma fetchJournalEntryById_resolves:
  "\<not> isl (fst (fetchJournalEntryById ident currentDate resp rand s))"
  by (auto simp: fetchJournalEntryById_def split: prod.splits sum.splits)

lemma example_service_journal_rejects:
  "fetchDailyJournalEntries currentDate resp rand (example_journal (Some Corrupt)) =
     (Inl CacheParseError, example_journal (Some Corrupt))"
  by (simp add: fetchDailyJournalEntries_def fetchDailyJournalEntries_try_def
      fetchDailyJournalEntries_catch_def example_journal_def)

lemma example_service_fields:
  "journal example_service = example_journal (Some Corrupt)"
  "latestArticles example_service = [example_article ''a'' ''Stay calm'' ''Ann'']"
  by (simp_all add: example_service_def service_init_def)

text \<open>
  C6 (as the code has it). When the live path of \<open>fetchAllArticles\<close> fails, the
  operation falls back to \<open>latestArticles\<close> if it is non-empty and to the static
  dataset otherwise. When the live path of \<open>fetchArticlesByCategory\<close>,
  \<open>fetchTrendingArticles\<close>, \<open>searchAllArticles\<close> or \<open>fetchRelatedArticles\<close> fails, the
  operation falls back to the matching query of the static dataset, whatever
  \<open>latestArticles\<close> holds. The live path of \<open>fetchArticleById\<close> does not fail, and its
  handler too reads only the static dataset.
\<close>

theorem read_operations_fallback:
  "(isl (fst (fetchAllArticles_try m forceRefresh currentDate resp rand st)) \<longrightarrow>
      fst (fetchAllArticles m forceRefresh currentDate resp rand st) =
        Inr (if length (latestArticles st) > 0 then latestArticles st else getAllArticles m)) \<and>
   (isl (fst (fetchArticlesByCategory_try m category currentDate resp rand st)) \<longrightarrow>
      fst (fetchArticlesByCategory m category currentDate resp rand st) =
        Inr (getArticlesByCategory m category)) \<and>
   (isl (fst (fetchTrendingArticles_try m currentDate resp rand st)) \<longrightarrow>
      fst (fetchTrendingArticles m currentDate resp rand st) = Inr (getTrendingArticles m)) \<and>
   (isl (fst (searchAllArticles_try m query currentDate resp rand st)) \<longrightarrow>
      fst (searchAllArticles m query currentDate resp rand st) = Inr (searchArticles m query)) \<and>
   (isl (fst (fetchRelatedArticles_try m shuffle currentArticleId category limit currentDate resp rand st)) \<longrightarrow>
      fst (fetchRelatedArticles m shuffle currentArticleId category limit currentDate resp rand st) =
        Inr (getRelatedArticles m currentArticleId category limit)) \<and>
   \<not> isl (fst (fetchArticleById_try m ident currentDate resp rand st)) \<and>
   fst (fetchArticleById_catch m ident st) = Inr (getArticleById m ident)"
proof (intro conjI impI)
  assume "isl (fst (fetchAllArticles_try m forceRefresh currentDate resp rand st))"
  then show "fst (fetchAllArticles m forceRefresh currentDate resp rand st) =
        Inr (if length (latestArticles st) > 0 then latestArticles st else getAllArticles m)"
    by (auto simp: fetchAllArticles_def fetchAllArticles_try_def fetchAllArticles_catch_def Let_def
        split: prod.splits sum.splits if_splits)
next
  assume "isl (fst (fetchArticlesByCategory_try m category currentDate resp rand st))"
  then show "fst (fetchArticlesByCategory m category currentDate resp rand st) =
        Inr (getArticlesByCategory m category)"
    by (auto simp: fetchArticlesByCategory_def fetchArticlesByCategory_try_def
        fetchArticlesByCategory_catch_def split: prod.splits sum.splits if_splits)
next
  assume "isl (fst (fetchTrendingArticles_try m currentDate resp rand st))"
  then show "fst (fetchTrendingArticles m currentDate resp rand st) = Inr (getTrendingArticles m)"
    by (auto simp: fetchTrendingArticles_def fetchTrendingArticles_try_def
        fetchTrendingArticles_catch_def Let_def split: prod.splits sum.splits if_splits)
next
  assume "isl (fst (searchAllArticles_try m query currentDate resp rand st))"
  then show "fst (searchAllArticles m query currentDate resp rand st) = Inr (searchArticles m query)"
    by (auto simp: searchAllArticles_def searchAllArticles_try_def
        searchAllArticles_catch_def Let_def split: prod.splits sum.splits if_splits)
next
  assume "isl (fst (fetchRelatedArticles_try m shuffle currentArticleId category limit currentDate resp rand st))"
  then show "fst (fetchRelatedArticles m shuffle currentArticleId category limit currentDate resp rand st) =
        Inr (getRelatedArticles m currentArticleId category limit)"
    by (auto simp: fetchRelatedArticles_def fetchRelatedArticles_try_def
        fetchRelatedArticles_catch_def Let_def split: prod.splits sum.splits if_splits)
next
  show "\<not> isl (fst (fetchArticleById_try m ident currentDate resp rand st))"
    using fetchJournalEntryById_resolves [of ident currentDate resp rand "journal st"]
    by (auto simp: fetchArticleById_try_def split: option.splits prod.splits)
next
  show "fst (fetchArticleById_catch m ident st) = Inr (getArticleById m ident)"
    by (simp add: fetchArticleById_catch_def)
qed

text \<open>
  An instance: the persisted record is corrupt, so every call of the journal module
  rejects; \<open>latestArticles\<close> holds one article, or none.
\<close>

theorem read_operations_fallback_witness:
  "isl (fst (fetchAllArticles_try example_mock True ''2024-05-02'' NetworkFailure example_draws
               example_service)) \<and>
   fst (fetchAllArticles example_mock True ''2024-05-02'' NetworkFailure example_draws
          example_service) = Inr [example_article ''a'' ''Stay calm'' ''Ann''] \<and>
   isl (fst (fetchAllArticles_try example_mock True ''2024-05-02'' NetworkFailure example_draws
               (example_service\<lparr>latestArticles := []\<rparr>))) \<and>
   fst (fetchAllArticles example_mock True ''2024-05-02'' NetworkFailure example_draws
          (example_service\<lparr>latestArticles := []\<rparr>)) = Inr [example_article ''m'' ''Mock'' ''Mo''] \<and>
   isl (fst (fetchArticlesByCategory_try example_mock ''journal'' ''2024-05-02'' NetworkFailure
               example_draws example_service)) \<and>
   fst (fetchArticlesByCategory example_mock ''journal'' ''2024-05-02'' NetworkFailure
          example_draws example_service) = Inr [] \<and>
   isl (fst (fetchTrendingArticles_try example_mock ''2024-05-02'' NetworkFailure example_draws
               example_service)) \<and>
   fst (fetchTrendingArticles example_mock ''2024-05-02'' NetworkFailure example_draws
          example_service) = Inr [] \<and>
   isl (fst (searchAllArticles_try example_mock ''calm'' ''2024-05-02'' NetworkFailure example_draws
               example_service)) \<and>
   fst (searchAllArticles example_mock ''calm'' ''2024-05-02'' NetworkFailure example_draws
          example_service) = Inr [] \<and>
   isl (fst (fetchRelatedArticles_try example_mock rev ''a'' ''journal'' 3 ''2024-05-02''
               NetworkFailure example_draws example_service)) \<and>
   fst (fetchRelatedArticles example_mock rev ''a'' ''journal'' 3 ''2024-05-02''
          NetworkFailure example_draws example_service) = Inr []"
proof -
  have j2: "journal (example_service\<lparr>latestArticles := []\<rparr>) = example_journal (Some Corrupt)"
    by (simp add: example_service_fields)
  have h1: "isl (fst (fetchAllArticles_try example_mock True ''2024-05-02'' NetworkFailure
                        example_draws example_service))"
    by (simp add: fetchAllArticles_try_def example_service_journal_rejects example_service_fields)
  have h1': "isl (fst (fetchAllArticles_try example_mock True ''2024-05-02'' NetworkFailure
                        example_draws (example_service\<lparr>latestArticles := []\<rparr>)))"
    by (simp add: fetchAllArticles_try_def example_service_journal_rejects j2)
  have h2: "isl (fst (fetchArticlesByCategory_try example_mock ''journal'' ''2024-05-02''
                        NetworkFailure example_draws example_service))"
    by (simp add: fetchArticlesByCategory_try_def example_service_journal_rejects
        example_service_fields)
  have h3: "isl (fst (fetchTrendingArticles_try example_mock ''2024-05-02'' NetworkFailure
                        example_draws example_service))"
    by (simp add: fetchTrendingArticles_try_def example_service_journal_rejects
        example_service_fields)
  have h4: "isl (fst (searchAllArticles_try example_mock ''calm'' ''2024-05-02'' NetworkFailure
                        example_draws example_service))"
    by (simp add: searchAllArticles_try_def example_service_journal_rejects
        example_service_fields)
  have h5: "isl (fst (fetchRelatedArticles_try example_mock rev ''a'' ''journal'' 3 ''2024-05-02''
                        NetworkFailure example_draws example_service))"
    by (simp add: fetchRelatedArticles_try_def example_service_journal_rejects
        example_service_fields)
  note a = read_operations_fallback [of example_mock True "''2024-05-02''" NetworkFailure
      example_draws example_service "''journal''" "''calm''" rev "''a''" 3 "''a''"]
  note b = read_operations_fallback [of example_mock True "''2024-05-02''" NetworkFailure
      example_draws "example_service\<lparr>latestArticles := []\<rparr>" "''journal''" "''calm''" rev "''a''" 3 "''a''"]
  from a b h1 h1' h2 h3 h4 h5 show ?thesis
    by (simp add: example_service_fields example_mock_def)
qed

text \<open>
  C6 as stated fails: the live path of \<open>fetchArticlesByCategory\<close> fails while
  \<open>latestArticles\<close> is non-empty, and the operation does not return \<open>latestArticles\<close>.
\<close>

theorem fetchArticlesByCategory_ignores_latestArticles:
  "isl (fst (fetchArticlesByCategory_try example_mock ''journal'' ''2024-05-02'' NetworkFailure
               example_draws example_service)) \<and>
   latestArticles example_service \<noteq> [] \<and>
   fst (fetchArticlesByCategory example_mock ''journal'' ''2024-05-02'' NetworkFailure
          example_draws example_service) \<noteq> Inr (latestArticles example_service)"
  by (simp add: fetchArticlesByCategory_def fetchArticlesByCategory_try_def
      fetchArticlesByCategory_catch_def example_service_journal_rejects example_service_fields
      example_mock_def)

lemma notifyCheckingStatusListeners_shape:
  "\<exists>r reg' called. notifyCheckingStatusListeners sb isChecking st =
     (r, st\<lparr>checkingStatusListeners := reg',
            status_log := status_log st @ map (\<lambda>l. (l, isChecking)) called\<rparr>) \<and>
     ((\<forall>t l. \<not> r_throws (sb t l isChecking)) \<longrightarrow> r = Inr ()) \<and>
     ((\<forall>t l. \<not> r_throws (sb t l isChecking) \<and> r_ops (sb t l isChecking) = []) \<longrightarrow>
        reg' = checkingStatusListeners st \<and> called = checkingStatusListeners st)"
proof -
  let ?react = "\<lambda>i l. sb (length (status_log st) + i) l isChecking"
  let ?reg = "checkingStatusListeners st"
  obtain thrown reg' called where fe: "forEach ?react 0 (length ?reg) ?reg [] = (thrown, reg', called)"
    by (metis prod_cases3)
  have nt: "thrown = None" if "\<forall>t l. \<not> r_throws (sb t l isChecking)"
    using forEach_no_throw [of ?react 0 "length ?reg" ?reg "[]"] that fe by simp
  have q: "reg' = ?reg \<and> called = ?reg"
    if "\<forall>t l. \<not> r_throws (sb t l isChecking) \<and> r_ops (sb t l isChecking) = []"
  proof -
    from that have "\<forall>i l. r_ops (?react i l) = [] \<and> \<not> r_throws (?react i l)"
      by blast
    then have "forEach ?react 0 (length ?reg) ?reg [] = (None, ?reg, [] @ drop 0 ?reg)"
      by (rule forEach_quiet) simp
    then have f2: "forEach ?react 0 (length ?reg) ?reg [] = (None, ?reg, ?reg)"
      by simp
    from fe [unfolded f2] show ?thesis by auto
  qed
  have eq: "notifyCheckingStatusListeners sb isChecking st =
     ((case thrown of Some e \<Rightarrow> Inl e | None \<Rightarrow> Inr ()),
      st\<lparr>checkingStatusListeners := reg',
         status_log := status_log st @ map (\<lambda>l. (l, isChecking)) called\<rparr>)"
    using fe by (cases thrown) (simp_all add: notifyCheckingStatusListeners_def Let_def)
  have r: "(\<forall>t l. \<not> r_throws (sb t l isChecking)) \<longrightarrow>
      (case thrown of Some e \<Rightarrow> Inl e | None \<Rightarrow> Inr ()) = Inr ()"
    using nt by simp
  from eq r q show ?thesis by blast
qed

lemma begin_skipped:
  "isCurrentlyChecking st \<Longrightarrow> checkAndNotify_begin sb st = (Skipped, st)"
  by (simp add: checkAndNotify_begin_def)

lemma begin_executes:
  assumes "\<not> isCurrentlyChecking st"
  shows "\<exists>a reg' called. checkAndNotify_begin sb st =
     (a, st\<lparr>isCurrentlyChecking := True, checkingStatusListeners := reg',
            status_log := status_log st @ map (\<lambda>l. (l, True)) called,
            in_flight := in_flight st + (if a = Awaiting then 1 else 0)\<rparr>) \<and>
     a \<noteq> Skipped \<and>
     ((\<forall>t l. \<not> r_throws (sb t l True)) \<longrightarrow> a = Awaiting) \<and>
     ((\<forall>t l. \<not> r_throws (sb t l True) \<and> r_ops (sb t l True) = []) \<longrightarrow>
        reg' = checkingStatusListeners st \<and> called = checkingStatusListeners st)"
proof -
  let ?st1 = "st\<lparr>isCurrentlyChecking := True\<rparr>"
  from notifyCheckingStatusListeners_shape [of sb True ?st1]
  obtain r reg' called where n: "notifyCheckingStatusListeners sb True ?st1 =
     (r, ?st1\<lparr>checkingStatusListeners := reg',
            status_log := status_log ?st1 @ map (\<lambda>l. (l, True)) called\<rparr>)"
    and nt: "(\<forall>t l. \<not> r_throws (sb t l True)) \<longrightarrow> r = Inr ()"
    and q: "(\<forall>t l. \<not> r_throws (sb t l True) \<and> r_ops (sb t l True) = []) \<longrightarrow>
        reg' = checkingStatusListeners ?st1 \<and> called = checkingStatusListeners ?st1"
    by blast
  show ?thesis
  proof (cases r)
    case (Inl e)
    with assms n have "checkAndNotify_begin sb st =
       (Rejected e, st\<lparr>isCurrentlyChecking := True, checkingStatusListeners := reg',
            status_log := status_log st @ map (\<lambda>l. (l, True)) called,
            in_flight := in_flight st + (if Rejected e = Awaiting then 1 else 0)\<rparr>)"
      by (simp add: checkAndNotify_begin_def)
    moreover have "\<not> (\<forall>t l. \<not> r_throws (sb t l True))" using nt Inl by auto
    ultimately show ?thesis by (intro exI [of _ "Rejected e"] exI [of _ reg'] exI [of _ called]) auto
  next
    case (Inr u)
    with assms n have "checkAndNotify_begin sb st =
       (Awaiting, st\<lparr>isCurrentlyChecking := True, checkingStatusListeners := reg',
            status_log := status_log st @ map (\<lambda>l. (l, True)) called,
            in_flight := in_flight st + (if Awaiting = Awaiting then 1 else 0)\<rparr>)"
      by (simp add: checkAndNotify_begin_def)
    then show ?thesis using q by (intro exI [of _ Awaiting] exI [of _ reg'] exI [of _ called]) auto
  qed
qed

lemma end_shape:
  "\<exists>r reg' called. checkAndNotify_end sb settled st =
     (r, st\<lparr>isCurrentlyChecking := False, checkingStatusListeners := reg',
            status_log := status_log st @ map (\<lambda>l. (l, False)) called,
            in_flight := in_flight st - 1\<rparr>) \<and>
     ((\<forall>t l. \<not> r_throws (sb t l False) \<and> r_ops (sb t l False) = []) \<longrightarrow>
        reg' = checkingStatusListeners st \<and> called = checkingStatusListeners st)"
proof -
  let ?st2 = "st\<lparr>in_flight := in_flight st - 1, isCurrentlyChecking := False\<rparr>"
  from notifyCheckingStatusListeners_shape [of sb False ?st2]
  obtain r reg' called where n: "notifyCheckingStatusListeners sb False ?st2 =
     (r, ?st2\<lparr>checkingStatusListeners := reg',
            status_log := status_log ?st2 @ map (\<lambda>l. (l, False)) called\<rparr>)"
    and q: "(\<forall>t l. \<not> r_throws (sb t l False) \<and> r_ops (sb t l False) = []) \<longrightarrow>
        reg' = checkingStatusListeners ?st2 \<and> called = checkingStatusListeners ?st2"
    by blast
  have "snd (checkAndNotify_end sb settled st) =
      st\<lparr>isCurrentlyChecking := False, checkingStatusListeners := reg',
            status_log := status_log st @ map (\<lambda>l. (l, False)) called,
            in_flight := in_flight st - 1\<rparr>"
    using n by (cases r; cases settled) (simp_all add: checkAndNotify_end_def Let_def)
  then show ?thesis using q
    by (intro exI [of _ "fst (checkAndNotify_end sb settled st)"] exI [of _ reg'] exI [of _ called])
       (auto simp: prod_eq_iff)
qed

lemma begin_fields [simp]:
  "timers (snd (checkAndNotify_begin sb st)) = timers st"
  "pollingInterval (snd (checkAndNotify_begin sb st)) = pollingInterval st"
  "next_handle (snd (checkAndNotify_begin sb st)) = next_handle st"
proof -
  show "timers (snd (checkAndNotify_begin sb st)) = timers st"
    using begin_skipped [of st sb] begin_executes [of st sb]
    by (cases "isCurrentlyChecking st") auto
  show "pollingInterval (snd (checkAndNotify_begin sb st)) = pollingInterval st"
    using begin_skipped [of st sb] begin_executes [of st sb]
    by (cases "isCurrentlyChecking st") auto
  show "next_handle (snd (checkAndNotify_begin sb st)) = next_handle st"
    using begin_skipped [of st sb] begin_executes [of st sb]
    by (cases "isCurrentlyChecking st") auto
qed

lemma end_fields [simp]:
  "timers (snd (checkAndNotify_end sb r st)) = timers st"
  "pollingInterval (snd (checkAndNotify_end sb r st)) = pollingInterval st"
  "next_handle (snd (checkAndNotify_end sb r st)) = next_handle st"
  using end_shape [of sb r st] by auto

lemma start_timers:
  "poller_inv st \<Longrightarrow>
     timers (startArticlePolling sb intervalMs st) = [(next_handle st, intervalMs)] \<and>
     pollingInterval (startArticlePolling sb intervalMs st) = Some (next_handle st) \<and>
     next_handle (startArticlePolling sb intervalMs st) = next_handle st + 1"
  by (auto simp: poller_inv_def startArticlePolling_def setInterval_def clearInterval_def Let_def
      split: option.splits)

lemma inv_step: "poller_inv st \<Longrightarrow> poller_inv (service_step sb st e)"
proof (cases e)
  case (StartPolling ms)
  assume "poller_inv st"
  from start_timers [OF this, of sb ms] this show ?thesis
    using StartPolling by (simp add: poller_inv_def)
next
  case StopPolling
  assume "poller_inv st"
  then show ?thesis using StopPolling
    by (auto simp: poller_inv_def stopArticlePolling_def clearInterval_def split: option.splits)
next
  case (TimerFires h)
  assume "poller_inv st"
  then show ?thesis using TimerFires by (auto simp: poller_inv_def split: option.splits)
next
  case (CheckSettles r)
  assume "poller_inv st"
  then show ?thesis using CheckSettles by (auto simp: poller_inv_def split: option.splits)
next
  case (SubscribeStatus l)
  assume "poller_inv st"
  then show ?thesis using SubscribeStatus
    by (auto simp: poller_inv_def subscribeToCheckingStatus_def split: option.splits)
next
  case (UnsubscribeStatus l)
  assume "poller_inv st"
  then show ?thesis using UnsubscribeStatus
    by (auto simp: poller_inv_def unsubscribeFromCheckingStatus_def split: option.splits)
qed

lemma inv_run: "poller_inv st \<Longrightarrow> poller_inv (service_run sb st events)"
  by (induction events rule: rev_induct) (simp_all add: service_run_def inv_step)

lemma inv_init: "poller_inv (service_init j)"
  by (simp add: poller_inv_def service_init_def)

text \<open>
  C7. Whatever has happened to the poller since the module was loaded (polling started
  and stopped, timers firing, checks settling, listeners coming and going), and whatever
  the checking-status listeners do when they are notified, at most one timer is
  installed; right after a call of \<open>startArticlePolling\<close> exactly one timer is
  installed, it has the interval of that call, and it is the timer the module
  remembers. \<open>startArticlePolling(1000)\<close> followed by \<open>startArticlePolling(500)\<close>
  leaves exactly one timer, at 500 ms.
\<close>

theorem startArticlePolling_single_timer:
  "length (timers (service_run sb (service_init j) events)) \<le> 1 \<and>
   (\<exists>h. timers (service_run sb (service_init j) (events @ [StartPolling intervalMs])) = [(h, intervalMs)] \<and>
        pollingInterval (service_run sb (service_init j) (events @ [StartPolling intervalMs])) = Some h) \<and>
   timers (service_run sb (service_init j) [StartPolling 1000, StartPolling 500]) = [(2, 500)]"
proof (intro conjI)
  have "poller_inv (service_run sb (service_init j) events)"
    by (rule inv_run [OF inv_init])
  then show "length (timers (service_run sb (service_init j) events)) \<le> 1"
    by (auto simp: poller_inv_def split: option.splits)
next
  have inv: "poller_inv (service_run sb (service_init j) events)"
    by (rule inv_run [OF inv_init])
  have "service_run sb (service_init j) (events @ [StartPolling intervalMs]) =
        startArticlePolling sb intervalMs (service_run sb (service_init j) events)"
    by (simp add: service_run_def)
  with start_timers [OF inv, of sb intervalMs]
  show "\<exists>h. timers (service_run sb (service_init j) (events @ [StartPolling intervalMs])) = [(h, intervalMs)] \<and>
        pollingInterval (service_run sb (service_init j) (events @ [StartPolling intervalMs])) = Some h"
    by simp
next
  have "service_run sb (service_init j) [StartPolling 1000, StartPolling 500] =
        startArticlePolling sb 500 (startArticlePolling sb 1000 (service_init j))"
    by (simp add: service_run_def)
  moreover have i1: "poller_inv (startArticlePolling sb 1000 (service_init j))"
    using inv_step [OF inv_init, of sb j "StartPolling 1000"] by simp
  moreover have "next_handle (startArticlePolling sb 1000 (service_init j)) = 2"
    using start_timers [OF inv_init, of sb 1000 j] by (simp add: service_init_def)
  ultimately show "timers (service_run sb (service_init j) [StartPolling 1000, StartPolling 500]) = [(2, 500)]"
    using start_timers [OF i1, of sb 500] by simp
qed









end
